theory Spec2Isabelle
  imports Complex_Main "HOL-Library.AList"
begin

section \<open>Data model\<close>

text \<open>
  The server of the game is \<^verbatim>\<open>src/server/GameServer.js\<close>, which also holds the classes
  \<^verbatim>\<open>Room\<close> and \<^verbatim>\<open>Player\<close>.  JavaScript numbers are modelled as reals: the
  messages are taken to carry finite numbers, and arithmetic is exact (so is the clamping of
  the move handler on floating-point numbers; the differences it compares with the
  thresholds are rounded there).  \<^verbatim>\<open>Date.now()\<close> and \<^verbatim>\<open>Math.random()\<close> are
  inputs of the handlers that call them.  A JavaScript \<^verbatim>\<open>Map\<close> is an association
  list in insertion order: \<^const>\<open>map_of\<close> is \<^verbatim>\<open>get\<close>,
  \<^const>\<open>AList.update\<close> is \<^verbatim>\<open>set\<close> (in place for a known key, at the end for
  a new one) and \<^const>\<open>AList.delete\<close> is \<^verbatim>\<open>delete\<close>.  Messages are taken to be
  well typed: names, ids and world states are strings, an identity token is a string or
  absent.

  \<^verbatim>\<open>Player\<close> objects are shared by reference between \<^verbatim>\<open>GameServer.players\<close>
  and \<^verbatim>\<open>Room.players\<close>, and they are mutated in place, so the model keeps them in a
  store: an address is an index into the list \<open>heap\<close>, and both maps hold addresses.
  Console output is modelled only for the reconnection message of the join handler.
\<close>

record Vec3 =
  vx :: real
  vy :: real
  vz :: real

record Player =
  p_id :: string
  username :: string
  position :: Vec3
  rotation :: real
  worldState :: string
  animation :: string
  characterId :: "string option"
  firebaseUid :: "string option"
  joinedAt :: nat
  lastUpdate :: nat
  needsBroadcast :: bool

record Room =
  r_id :: string
  maxPlayers :: nat
  r_players :: "(string \<times> nat) list"
  createdAt :: nat
  selectedCharacters :: "(string \<times> string) list"

text \<open>The payloads of the outbound events.\<close>

record CharacterState =
  cs_id :: string
  cs_available :: bool
  cs_takenBy :: "string option"

record PlayerData =
  pd_id :: string
  pd_username :: string
  pd_position :: Vec3
  pd_rotation :: real
  pd_worldState :: string
  pd_animation :: string
  pd_characterId :: "string option"

record PlayerUpdate =
  u_id :: string
  u_position :: Vec3
  u_rotation :: real
  u_animation :: string

datatype Payload =
    ErrorMessage string
  | SelectCharacterScreen string "string option" "CharacterState list"
  | CharacterSelectFailed string "CharacterState list"
  | CharacterSelected string "CharacterState list"
  | CharacterStateChanged "CharacterState list"
  | PlayerJoined string "string option" PlayerData "PlayerData list"
  | PlayerSpawned PlayerData
  | PlayerLeft string
  | PlayerWorldChanged string "PlayerData list"
  | PlayerChat string string string
  | PlayersUpdate "PlayerUpdate list"
  | LogReconnected string

text \<open>
  Where an event is sent: \<open>ToSocket i\<close> is \<^verbatim>\<open>socket.emit\<close> on the socket \<open>i\<close>,
  \<open>ToRoom r\<close> is \<^verbatim>\<open>io.to(r).emit\<close>, \<open>ToRoomExcept r i\<close> is
  \<^verbatim>\<open>socket.to(r).emit\<close> on the socket \<open>i\<close>, and \<open>Console\<close> is
  \<^verbatim>\<open>console.log\<close>.
\<close>

datatype Target = ToSocket string | ToRoom string | ToRoomExcept string string | Console

type_synonym Emit = "Target \<times> Payload"

record GameServer =
  rooms :: "(string \<times> Room) list"
  players :: "(string \<times> nat) list"
  socketToRoom :: "(string \<times> string) list"
  uidToSocket :: "(string \<times> string) list"
  heap :: "Player list"
  io_rooms :: "(string \<times> string) list"

text \<open>
  \<open>io_rooms\<close> is the room membership kept by the transport library, as pairs
  (room, socket): a connected socket is in the room named by its own id, and
  \<^verbatim>\<open>socket.join\<close> adds a pair.
\<close>

datatype error = TypeError

record JoinData =
  jd_username :: "string option"
  jd_uid :: "string option"
  jd_roomId :: "string option"

record MoveData =
  md_position :: "Vec3 option"
  md_rotation :: "real option"
  md_animation :: "string option"

section \<open>Configuration\<close>

definition MAX_PLAYERS_PER_ROOM :: nat where "MAX_PLAYERS_PER_ROOM = 30"
definition POSITION_THRESHOLD :: real where "POSITION_THRESHOLD = 1 / 100"
definition ROTATION_THRESHOLD :: real where "ROTATION_THRESHOLD = 1 / 100"
definition minX :: real where "minX = - 500"
definition maxX :: real where "maxX = 500"
definition minZ :: real where "minZ = - 500"
definition maxZ :: real where "maxZ = 500"

definition AVAILABLE_CHARACTERS :: "string list" where
  "AVAILABLE_CHARACTERS = [''eleven'', ''mike'', ''dustin'', ''lucas'', ''will'', ''max'']"

text \<open>JavaScript truthiness of a value that is a string, \<^verbatim>\<open>null\<close> or \<^verbatim>\<open>undefined\<close>.\<close>

definition truthy :: "string option \<Rightarrow> bool" where
  "truthy v = (case v of None \<Rightarrow> False | Some t \<Rightarrow> t \<noteq> [])"

section \<open>Player\<close>

definition Player_new :: "string \<Rightarrow> string \<Rightarrow> Vec3 \<Rightarrow> nat \<Rightarrow> Player" where
  "Player_new i name pos now =
     \<lparr>p_id = i, username = name, position = pos, rotation = 0, worldState = ''normal'',
      animation = ''idle'', characterId = None, firebaseUid = None, joinedAt = now,
      lastUpdate = now, needsBroadcast = False\<rparr>"

definition setCharacter :: "string \<Rightarrow> Player \<Rightarrow> Player" where
  "setCharacter c p = p\<lparr>characterId := Some c\<rparr>"

definition setPosition :: "Vec3 \<Rightarrow> Player \<Rightarrow> Player" where
  "setPosition pos p =
     p\<lparr>position := (position p)\<lparr>vx := vx pos, vy := vy pos, vz := vz pos\<rparr>\<rparr>"

definition setRotation :: "real \<Rightarrow> Player \<Rightarrow> Player" where
  "setRotation r p = p\<lparr>rotation := r\<rparr>"

definition hasPositionChanged :: "Player \<Rightarrow> Vec3 \<Rightarrow> real \<Rightarrow> bool" where
  "hasPositionChanged p newPos threshold =
     (let dx = \<bar>vx (position p) - vx newPos\<bar>;
          dy = \<bar>vy (position p) - vy newPos\<bar>;
          dz = \<bar>vz (position p) - vz newPos\<bar>
      in dx > threshold \<or> dy > threshold \<or> dz > threshold)"

definition hasRotationChanged :: "Player \<Rightarrow> real \<Rightarrow> real \<Rightarrow> bool" where
  "hasRotationChanged p newRot threshold = (\<bar>rotation p - newRot\<bar> > threshold)"

definition serialize :: "Player \<Rightarrow> PlayerData" where
  "serialize p =
     \<lparr>pd_id = p_id p, pd_username = username p, pd_position = position p,
      pd_rotation = rotation p, pd_worldState = worldState p, pd_animation = animation p,
      pd_characterId = characterId p\<rparr>"

section \<open>Room\<close>

definition Room_new :: "string \<Rightarrow> nat \<Rightarrow> nat \<Rightarrow> Room" where
  "Room_new i maxP now =
     \<lparr>r_id = i, maxPlayers = maxP, r_players = [], createdAt = now, selectedCharacters = []\<rparr>"

definition getCharacterStates :: "Room \<Rightarrow> CharacterState list" where
  "getCharacterStates room =
     map (\<lambda>charId.
            \<lparr>cs_id = charId,
             cs_available = (map_of (selectedCharacters room) charId = None),
             cs_takenBy = (case map_of (selectedCharacters room) charId of
                             None \<Rightarrow> None
                           | Some pId \<Rightarrow> if pId \<noteq> [] then Some pId else None)\<rparr>)
         AVAILABLE_CHARACTERS"

text \<open>
  \<^verbatim>\<open>getPlayerCharacter\<close> and \<^verbatim>\<open>releaseCharacter\<close> walk the entries in
  insertion order and stop at the first one held by the player.
\<close>

definition getPlayerCharacter :: "Room \<Rightarrow> string \<Rightarrow> string option" where
  "getPlayerCharacter room playerId =
     (case find (\<lambda>(charId, pId). pId = playerId) (selectedCharacters room) of
        None \<Rightarrow> None
      | Some (charId, pId) \<Rightarrow> Some charId)"

definition releaseCharacter :: "string \<Rightarrow> Room \<Rightarrow> string option \<times> Room" where
  "releaseCharacter playerId room =
     (case find (\<lambda>(charId, pId). pId = playerId) (selectedCharacters room) of
        None \<Rightarrow> (None, room)
      | Some (charId, pId) \<Rightarrow>
          (Some charId,
           room\<lparr>selectedCharacters := AList.delete charId (selectedCharacters room)\<rparr>))"

datatype SelectError = InvalidCharacter | AlreadyTaken

definition error_text :: "SelectError \<Rightarrow> string" where
  "error_text e = (case e of InvalidCharacter \<Rightarrow> ''Invalid character''
                           | AlreadyTaken \<Rightarrow> ''Character already taken'')"

definition selectCharacter :: "string \<Rightarrow> string \<Rightarrow> Room \<Rightarrow> SelectError + Room" where
  "selectCharacter playerId charId room =
     (if charId \<notin> set AVAILABLE_CHARACTERS then Inl InvalidCharacter
      else if map_of (selectedCharacters room) charId \<noteq> None then Inl AlreadyTaken
      else let room1 = snd (releaseCharacter playerId room)
           in Inr (room1\<lparr>selectedCharacters :=
                           AList.update charId playerId (selectedCharacters room1)\<rparr>))"

definition addPlayer :: "string \<Rightarrow> nat \<Rightarrow> Room \<Rightarrow> Room" where
  "addPlayer playerId addr room =
     room\<lparr>r_players := AList.update playerId addr (r_players room)\<rparr>"

definition removePlayer :: "string \<Rightarrow> Room \<Rightarrow> string option \<times> Room" where
  "removePlayer playerId room =
     (let (releasedCharacter, room1) = releaseCharacter playerId room
      in (releasedCharacter, room1\<lparr>r_players := AList.delete playerId (r_players room1)\<rparr>))"

definition getPlayersInWorldState :: "Room \<Rightarrow> string \<Rightarrow> Player list \<Rightarrow> nat list" where
  "getPlayersInWorldState room ws h =
     filter (\<lambda>a. worldState (h ! a) = ws) (map snd (r_players room))"

definition getPlayerCount :: "Room \<Rightarrow> nat" where
  "getPlayerCount room = length (r_players room)"

definition isFull :: "Room \<Rightarrow> bool" where
  "isFull room = (length (r_players room) \<ge> maxPlayers room)"

section \<open>GameServer\<close>

definition createRoom :: "nat \<Rightarrow> string \<Rightarrow> GameServer \<Rightarrow> GameServer" where
  "createRoom now roomId s =
     s\<lparr>rooms := AList.update roomId (Room_new roomId MAX_PLAYERS_PER_ROOM now) (rooms s)\<rparr>"

text \<open>The constructor: empty maps, then the default room.\<close>

definition GameServer_new :: "nat \<Rightarrow> GameServer" where
  "GameServer_new now =
     createRoom now ''hawkins-1''
       \<lparr>rooms = [], players = [], socketToRoom = [], uidToSocket = [], heap = [],
        io_rooms = []\<rparr>"

text \<open>\<^verbatim>\<open>Math.random()\<close> is drawn twice; the draws are the arguments.\<close>

definition getSpawnPosition :: "real \<Rightarrow> real \<Rightarrow> Vec3" where
  "getSpawnPosition r1 r2 = \<lparr>vx = (r1 - 1 / 2) * 20, vy = 0, vz = (r2 - 1 / 2) * 20\<rparr>"

definition handlePlayerJoin ::
  "string \<Rightarrow> JoinData \<Rightarrow> nat \<Rightarrow> real \<Rightarrow> real \<Rightarrow> GameServer \<Rightarrow> GameServer \<times> Emit list" where
  "handlePlayerJoin sid data now r1 r2 s =
     (let uname = (case jd_username data of None \<Rightarrow> ''Player'' | Some n \<Rightarrow> n);
          uid = jd_uid data;
          roomId = (case jd_roomId data of None \<Rightarrow> ''hawkins-1'' | Some r \<Rightarrow> r)
      in case map_of (rooms s) roomId of
           None \<Rightarrow> (s, [(ToSocket sid, ErrorMessage ''Room not found'')])
         | Some room \<Rightarrow>
             if isFull room then (s, [(ToSocket sid, ErrorMessage ''Room is full'')])
             else
               let logged =
                     (if truthy uid \<and> map_of (uidToSocket s) (the uid) \<noteq> None
                         \<and> map_of (uidToSocket s) (the uid) \<noteq> Some sid
                      then [(Console, LogReconnected (the uid))] else []);
                   spawnPos = getSpawnPosition r1 r2;
                   player = (Player_new sid uname spawnPos now)\<lparr>firebaseUid := uid\<rparr>;
                   addr = length (heap s);
                   s1 = s\<lparr>heap := heap s @ [player],
                          players := AList.update sid addr (players s),
                          socketToRoom := AList.update sid roomId (socketToRoom s),
                          uidToSocket := (if truthy uid
                                          then AList.update (the uid) sid (uidToSocket s)
                                          else uidToSocket s),
                          io_rooms := List.insert (roomId, sid) (io_rooms s)\<rparr>
               in (s1, logged @
                       [(ToSocket sid,
                         SelectCharacterScreen sid uid (getCharacterStates room))]))"

definition handleCharacterSelect ::
  "string \<Rightarrow> string \<Rightarrow> GameServer \<Rightarrow> GameServer \<times> Emit list" where
  "handleCharacterSelect sid charId s =
     (case (map_of (players s) sid, map_of (socketToRoom s) sid) of
        (Some a, Some roomId) \<Rightarrow>
          if roomId = [] then (s, [(ToSocket sid, ErrorMessage ''Player not found'')])
          else (case map_of (rooms s) roomId of
                  None \<Rightarrow> (s, [(ToSocket sid, ErrorMessage ''Room not found'')])
                | Some room \<Rightarrow>
                    (case selectCharacter sid charId room of
                       Inl e \<Rightarrow>
                         (s, [(ToSocket sid,
                               CharacterSelectFailed (error_text e) (getCharacterStates room))])
                     | Inr room1 \<Rightarrow>
                         (s\<lparr>rooms := AList.update roomId room1 (rooms s),
                            heap := (heap s)[a := setCharacter charId (heap s ! a)]\<rparr>,
                          [(ToSocket sid, CharacterSelected charId (getCharacterStates room1)),
                           (ToRoomExcept roomId sid,
                            CharacterStateChanged (getCharacterStates room1))])))
      | _ \<Rightarrow> (s, [(ToSocket sid, ErrorMessage ''Player not found'')]))"

definition handlePlayerReady :: "string \<Rightarrow> GameServer \<Rightarrow> GameServer \<times> Emit list" where
  "handlePlayerReady sid s =
     (case (map_of (players s) sid, map_of (socketToRoom s) sid) of
        (Some a, Some roomId) \<Rightarrow>
          if roomId = [] then (s, [(ToSocket sid, ErrorMessage ''Player not found'')])
          else (case map_of (rooms s) roomId of
                  None \<Rightarrow> (s, [(ToSocket sid, ErrorMessage ''Room not found'')])
                | Some room \<Rightarrow>
                    let player = heap s ! a in
                    if \<not> truthy (characterId player)
                    then (s, [(ToSocket sid,
                               ErrorMessage ''Please select a character first'')])
                    else
                      let room1 = addPlayer (p_id player) a room
                      in (s\<lparr>rooms := AList.update roomId room1 (rooms s)\<rparr>,
                          [(ToSocket sid,
                            PlayerJoined sid (firebaseUid player) (serialize player)
                              (map (\<lambda>b. serialize (heap s ! b))
                                 (filter (\<lambda>b. p_id (heap s ! b) \<noteq> sid)
                                    (getPlayersInWorldState room1 (worldState player)
                                       (heap s))))),
                           (ToRoomExcept roomId sid, PlayerSpawned (serialize player))]))
      | _ \<Rightarrow> (s, [(ToSocket sid, ErrorMessage ''Player not found'')]))"

definition clampPosition :: "Vec3 \<Rightarrow> Vec3" where
  "clampPosition pos =
     pos\<lparr>vx := max minX (min maxX (vx pos)), vz := max minZ (min maxZ (vz pos))\<rparr>"

definition handlePlayerMove :: "string \<Rightarrow> MoveData \<Rightarrow> nat \<Rightarrow> GameServer \<Rightarrow> GameServer" where
  "handlePlayerMove sid data now s =
     (case map_of (players s) sid of
        None \<Rightarrow> s
      | Some a \<Rightarrow>
          let player = heap s ! a;
              pos = map_option clampPosition (md_position data);
              posChanged = (case pos of None \<Rightarrow> False
                            | Some p \<Rightarrow> hasPositionChanged player p POSITION_THRESHOLD);
              rotChanged = (case md_rotation data of None \<Rightarrow> False
                            | Some r \<Rightarrow> hasRotationChanged player r ROTATION_THRESHOLD);
              animChanged = (truthy (md_animation data)
                             \<and> animation player \<noteq> the (md_animation data))
          in if \<not> posChanged \<and> \<not> rotChanged \<and> \<not> animChanged then s
             else
               let p1 = (case pos of None \<Rightarrow> player | Some p \<Rightarrow> setPosition p player);
                   p2 = (case md_rotation data of None \<Rightarrow> p1 | Some r \<Rightarrow> setRotation r p1);
                   p3 = (if truthy (md_animation data)
                         then p2\<lparr>animation := the (md_animation data)\<rparr> else p2)
               in s\<lparr>heap := (heap s)[a := p3\<lparr>lastUpdate := now, needsBroadcast := True\<rparr>]\<rparr>)"

definition handleWorldChange ::
  "string \<Rightarrow> string \<Rightarrow> GameServer \<Rightarrow> error + GameServer \<times> Emit list" where
  "handleWorldChange sid newWorldState s =
     (case (map_of (players s) sid, map_of (socketToRoom s) sid) of
        (Some a, Some roomId) \<Rightarrow>
          if roomId = [] then Inr (s, [])
          else
            let oldWorldState = worldState (heap s ! a) in
            if newWorldState \<noteq> ''normal'' \<and> newWorldState \<noteq> ''upsideDown'' then Inr (s, [])
            else if oldWorldState = newWorldState then Inr (s, [])
            else
              let h1 = (heap s)[a := (heap s ! a)\<lparr>worldState := newWorldState\<rparr>] in
              (case map_of (rooms s) roomId of
                 None \<Rightarrow> Inl TypeError
               | Some room \<Rightarrow>
                   let oldWorldPlayers = filter (\<lambda>b. p_id (h1 ! b) \<noteq> sid)
                                           (getPlayersInWorldState room oldWorldState h1);
                       newWorldPlayers = filter (\<lambda>b. p_id (h1 ! b) \<noteq> sid)
                                           (getPlayersInWorldState room newWorldState h1)
                   in Inr (s\<lparr>heap := h1\<rparr>,
                           map (\<lambda>b. (ToRoom (p_id (h1 ! b)), PlayerLeft sid)) oldWorldPlayers
                           @ map (\<lambda>b. (ToRoom (p_id (h1 ! b)),
                                        PlayerSpawned (serialize (h1 ! a)))) newWorldPlayers
                           @ [(ToSocket sid,
                               PlayerWorldChanged newWorldState
                                 (map (\<lambda>b. serialize (h1 ! b)) newWorldPlayers))]))
      | _ \<Rightarrow> Inr (s, []))"

definition handleAnimationChange :: "string \<Rightarrow> string \<Rightarrow> GameServer \<Rightarrow> GameServer" where
  "handleAnimationChange sid anim s =
     (case map_of (players s) sid of
        None \<Rightarrow> s
      | Some a \<Rightarrow>
          s\<lparr>heap := (heap s)[a := (heap s ! a)\<lparr>animation := anim, needsBroadcast := True\<rparr>]\<rparr>)"

definition handleChat :: "string \<Rightarrow> string \<Rightarrow> GameServer \<Rightarrow> error + GameServer \<times> Emit list" where
  "handleChat sid msg s =
     (case (map_of (players s) sid, map_of (socketToRoom s) sid) of
        (Some a, Some roomId) \<Rightarrow>
          if roomId = [] then Inr (s, [])
          else (case map_of (rooms s) roomId of
                  None \<Rightarrow> Inl TypeError
                | Some room \<Rightarrow>
                    let player = heap s ! a
                    in Inr (s, map (\<lambda>b. (ToRoom (p_id (heap s ! b)),
                                          PlayerChat sid (username player) (take 200 msg)))
                                 (getPlayersInWorldState room (worldState player) (heap s))))
      | _ \<Rightarrow> Inr (s, []))"

definition handleDisconnect :: "string \<Rightarrow> GameServer \<Rightarrow> GameServer \<times> Emit list" where
  "handleDisconnect sid s =
     (let (s1, out) =
            (case (map_of (players s) sid, map_of (socketToRoom s) sid) of
               (Some a, Some roomId) \<Rightarrow>
                 if roomId = [] then (s, [])
                 else
                   let player = heap s ! a;
                       (s2, out2) =
                         (case map_of (rooms s) roomId of
                            None \<Rightarrow> (s, [])
                          | Some room \<Rightarrow>
                              let (releasedCharacter, room1) = removePlayer sid room
                              in (s\<lparr>rooms := AList.update roomId room1 (rooms s)\<rparr>,
                                  map (\<lambda>b. (ToRoom (p_id (heap s ! b)), PlayerLeft sid))
                                    (getPlayersInWorldState room1 (worldState player) (heap s))
                                  @ (if truthy releasedCharacter
                                     then [(ToRoom roomId,
                                            CharacterStateChanged (getCharacterStates room1))]
                                     else [])))
                   in (if truthy (firebaseUid player)
                       then s2\<lparr>uidToSocket :=
                                 AList.delete (the (firebaseUid player)) (uidToSocket s2)\<rparr>
                       else s2, out2)
             | _ \<Rightarrow> (s, []))
      in (s1\<lparr>players := AList.delete sid (players s1),
             socketToRoom := AList.delete sid (socketToRoom s1)\<rparr>, out))"

section \<open>The game loop\<close>

definition mkUpdate :: "Player \<Rightarrow> PlayerUpdate" where
  "mkUpdate p =
     \<lparr>u_id = p_id p, u_position = position p, u_rotation = rotation p,
      u_animation = animation p\<rparr>"

text \<open>The first loop of \<^verbatim>\<open>broadcastUpdates\<close>: collect the flagged players, clearing flags.\<close>

fun collectUpdates :: "nat list \<Rightarrow> Player list \<Rightarrow> PlayerUpdate list \<times> Player list" where
  "collectUpdates [] h = ([], h)"
| "collectUpdates (a # as) h =
     (if needsBroadcast (h ! a)
      then let (us, h') = collectUpdates as (h[a := (h ! a)\<lparr>needsBroadcast := False\<rparr>])
           in (mkUpdate (h ! a) # us, h')
      else collectUpdates as h)"

text \<open>The second loop: one message for each player whose filtered batch is not empty.\<close>

definition sendUpdates :: "PlayerUpdate list \<Rightarrow> nat list \<Rightarrow> Player list \<Rightarrow> Emit list" where
  "sendUpdates updates ps h =
     concat (map (\<lambda>a. let relevantUpdates = filter (\<lambda>u. u_id u \<noteq> p_id (h ! a)) updates
                      in if relevantUpdates \<noteq> []
                         then [(ToRoom (p_id (h ! a)), PlayersUpdate relevantUpdates)]
                         else []) ps)"

definition broadcastUpdates ::
  "nat list \<Rightarrow> string \<Rightarrow> Player list \<Rightarrow> Player list \<times> Emit list" where
  "broadcastUpdates ps roomId h =
     (let (updates, h') = collectUpdates ps h
      in (h', if updates \<noteq> [] then sendUpdates updates ps h' else []))"

definition tickRoom :: "string \<Rightarrow> Room \<Rightarrow> Player list \<Rightarrow> Player list \<times> Emit list" where
  "tickRoom roomId room h =
     (let normalPlayers = getPlayersInWorldState room ''normal'' h;
          upsideDownPlayers = getPlayersInWorldState room ''upsideDown'' h;
          (h1, out1) = broadcastUpdates normalPlayers roomId h;
          (h2, out2) = broadcastUpdates upsideDownPlayers roomId h1
      in (h2, out1 @ out2))"

fun tickRooms :: "(string \<times> Room) list \<Rightarrow> Player list \<Rightarrow> Player list \<times> Emit list" where
  "tickRooms [] h = (h, [])"
| "tickRooms ((roomId, room) # rs) h =
     (let (h1, out1) = tickRoom roomId room h;
          (h2, out2) = tickRooms rs h1
      in (h2, out1 @ out2))"

definition gameLoopTick :: "GameServer \<Rightarrow> GameServer \<times> Emit list" where
  "gameLoopTick s = (let (h, out) = tickRooms (rooms s) (heap s) in (s\<lparr>heap := h\<rparr>, out))"

section \<open>Transport and executions\<close>

text \<open>
  What the transport library does around the handlers: a new connection puts the socket in
  the room of its own id, and a disconnection takes the socket out of every room before the
  \<^verbatim>\<open>disconnect\<close> handler runs.
\<close>

definition is_connected :: "GameServer \<Rightarrow> string \<Rightarrow> bool" where
  "is_connected s sid = ((sid, sid) \<in> set (io_rooms s))"

definition io_connect :: "string \<Rightarrow> GameServer \<Rightarrow> GameServer" where
  "io_connect sid s = s\<lparr>io_rooms := List.insert (sid, sid) (io_rooms s)\<rparr>"

definition io_leave_all :: "string \<Rightarrow> GameServer \<Rightarrow> GameServer" where
  "io_leave_all sid s = s\<lparr>io_rooms := filter (\<lambda>(r, i). i \<noteq> sid) (io_rooms s)\<rparr>"

definition members :: "(string \<times> string) list \<Rightarrow> string \<Rightarrow> string list" where
  "members io r = map snd (filter (\<lambda>(r', i). r' = r) io)"

fun recipients :: "(string \<times> string) list \<Rightarrow> Target \<Rightarrow> string list" where
  "recipients io (ToSocket i) = [i]"
| "recipients io (ToRoom r) = members io r"
| "recipients io (ToRoomExcept r i) = filter (\<lambda>j. j \<noteq> i) (members io r)"
| "recipients io Console = []"

definition deliveredTo :: "(string \<times> string) list \<Rightarrow> Emit list \<Rightarrow> string \<Rightarrow> Payload list" where
  "deliveredTo io out b = map snd (filter (\<lambda>(t, e). b \<in> set (recipients io t)) out)"

datatype Event =
    Connection string
  | PlayerJoin string JoinData nat real real
  | CharacterSelect string string
  | PlayerReady string
  | PlayerMove string MoveData nat
  | WorldChange string string
  | AnimationChange string string
  | Chat string string
  | Disconnect string
  | Tick

fun dispatch :: "Event \<Rightarrow> GameServer \<Rightarrow> error + GameServer \<times> Emit list" where
  "dispatch (Connection sid) s = Inr (io_connect sid s, [])"
| "dispatch (PlayerJoin sid data now r1 r2) s = Inr (handlePlayerJoin sid data now r1 r2 s)"
| "dispatch (CharacterSelect sid c) s = Inr (handleCharacterSelect sid c s)"
| "dispatch (PlayerReady sid) s = Inr (handlePlayerReady sid s)"
| "dispatch (PlayerMove sid data now) s = Inr (handlePlayerMove sid data now s, [])"
| "dispatch (WorldChange sid ws) s = handleWorldChange sid ws s"
| "dispatch (AnimationChange sid anim) s = Inr (handleAnimationChange sid anim s, [])"
| "dispatch (Chat sid msg) s = handleChat sid msg s"
| "dispatch (Disconnect sid) s = Inr (handleDisconnect sid (io_leave_all sid s))"
| "dispatch Tick s = Inr (gameLoopTick s)"

text \<open>
  An event a live server can receive: socket events come from connected sockets, a new
  connection has an id that is not connected, and a draw of \<^verbatim>\<open>Math.random()\<close> lies
  in \<open>[0, 1)\<close>.
\<close>

fun admissible :: "GameServer \<Rightarrow> Event \<Rightarrow> bool" where
  "admissible s (Connection sid) = (\<not> is_connected s sid)"
| "admissible s (PlayerJoin sid data now r1 r2) =
     (is_connected s sid \<and> 0 \<le> r1 \<and> r1 < 1 \<and> 0 \<le> r2 \<and> r2 < 1)"
| "admissible s (CharacterSelect sid c) = is_connected s sid"
| "admissible s (PlayerReady sid) = is_connected s sid"
| "admissible s (PlayerMove sid data now) = is_connected s sid"
| "admissible s (WorldChange sid ws) = is_connected s sid"
| "admissible s (AnimationChange sid anim) = is_connected s sid"
| "admissible s (Chat sid msg) = is_connected s sid"
| "admissible s (Disconnect sid) = is_connected s sid"
| "admissible s Tick = True"

inductive reachable :: "GameServer \<Rightarrow> bool" where
  init: "reachable (GameServer_new now)"
| step: "reachable s \<Longrightarrow> admissible s e \<Longrightarrow> dispatch e s = Inr (s', out) \<Longrightarrow> reachable s'"

text \<open>Running a list of events from a state, collecting what is emitted.\<close>

fun run :: "Event list \<Rightarrow> GameServer \<Rightarrow> error + GameServer \<times> Emit list" where
  "run [] s = Inr (s, [])"
| "run (e # es) s =
     (case dispatch e s of
        Inl err \<Rightarrow> Inl err
      | Inr (s1, out1) \<Rightarrow>
          (case run es s1 of Inl err \<Rightarrow> Inl err | Inr (s2, out2) \<Rightarrow> Inr (s2, out1 @ out2)))"

text \<open>A list of events that a live server can receive one after the other, without a crash.\<close>

fun feasible :: "Event list \<Rightarrow> GameServer \<Rightarrow> bool" where
  "feasible [] s = True"
| "feasible (e # es) s =
     (admissible s e \<and> (case dispatch e s of Inl err \<Rightarrow> False | Inr (s1, out1) \<Rightarrow> feasible es s1))"

section \<open>Well-formed states\<close>

text \<open>
  The properties every state of a running server has.  The arbiter map of a room gives a
  character to at most one session and a session at most one character, and only characters
  of the fixed set; a ready session of a room refers to a stored player of the same id and
  holds a character of that room; a registered session refers to a stored player of the same
  id, is attached to an existing room, and the character recorded in its player object is
  the one the arbiter of that room gives it; every stored position is inside the world
  bounds.
\<close>

definition in_bounds :: "Vec3 \<Rightarrow> bool" where
  "in_bounds pos = (minX \<le> vx pos \<and> vx pos \<le> maxX \<and> minZ \<le> vz pos \<and> vz pos \<le> maxZ)"

definition arbiter_ok :: "(string \<times> string) list \<Rightarrow> bool" where
  "arbiter_ok sel =
     (distinct (map fst sel) \<and> distinct (map snd sel) \<and>
      fst ` set sel \<subseteq> set AVAILABLE_CHARACTERS)"

definition room_ok :: "Player list \<Rightarrow> Room \<Rightarrow> bool" where
  "room_ok h room =
     (arbiter_ok (selectedCharacters room) \<and> distinct (map fst (r_players room)) \<and>
      maxPlayers room = MAX_PLAYERS_PER_ROOM \<and>
      (\<forall>k b. (k, b) \<in> set (r_players room) \<longrightarrow>
         b < length h \<and> p_id (h ! b) = k \<and> k \<in> snd ` set (selectedCharacters room)))"

definition session_ok :: "GameServer \<Rightarrow> string \<Rightarrow> nat \<Rightarrow> bool" where
  "session_ok s sid a =
     (a < length (heap s) \<and> p_id (heap s ! a) = sid \<and>
      (\<exists>rid room. map_of (socketToRoom s) sid = Some rid \<and>
         map_of (rooms s) rid = Some room \<and>
         (\<forall>c. characterId (heap s ! a) = Some c \<longrightarrow>
              (c, sid) \<in> set (selectedCharacters room))))"

definition wf :: "GameServer \<Rightarrow> bool" where
  "wf s =
     ((\<forall>rid room. map_of (rooms s) rid = Some room \<longrightarrow> rid \<noteq> [] \<and> room_ok (heap s) room) \<and>
      (\<forall>sid a. map_of (players s) sid = Some a \<longrightarrow> session_ok s sid a) \<and>
      (\<forall>p \<in> set (heap s). in_bounds (position p)))"

text \<open>
  What the handlers that only touch stored players may do to the store: no player is added
  or removed, and identity, character, being inside the bounds and having one of the two
  world states are kept.
\<close>

definition valid_world :: "string \<Rightarrow> bool" where
  "valid_world ws = (ws = ''normal'' \<or> ws = ''upsideDown'')"

definition worlds_ok :: "GameServer \<Rightarrow> bool" where
  "worlds_ok s = (\<forall>p \<in> set (heap s). valid_world (worldState p))"

definition heap_step :: "Player list \<Rightarrow> Player list \<Rightarrow> bool" where
  "heap_step h h' =
     (length h' = length h \<and>
      (\<forall>b < length h. p_id (h' ! b) = p_id (h ! b) \<and>
                       characterId (h' ! b) = characterId (h ! b) \<and>
                       (in_bounds (position (h ! b)) \<longrightarrow> in_bounds (position (h' ! b))) \<and>
                       (valid_world (worldState (h ! b)) \<longrightarrow>
                          valid_world (worldState (h' ! b)))))"

text \<open>The server only ever holds the room its constructor creates.\<close>

definition one_room :: "GameServer \<Rightarrow> bool" where
  "one_room s = (\<exists>room. rooms s = [(''hawkins-1'', room)])"

section \<open>Partitions\<close>

text \<open>
  The ready sessions of a room, other than the session \<open>sid\<close>, whose stored world state is
  \<open>ws\<close>: the peers of \<open>sid\<close> in the partition \<open>ws\<close>.
\<close>

definition others_in :: "Room \<Rightarrow> string \<Rightarrow> string \<Rightarrow> Player list \<Rightarrow> nat list" where
  "others_in room ws sid h =
     filter (\<lambda>b. worldState (h ! b) = ws \<and> p_id (h ! b) \<noteq> sid) (map snd (r_players room))"

section \<open>The tick, as specified\<close>

text \<open>
  For the sessions \<open>ps\<close> of one partition and the store \<open>h\<close>: the batch has one entry
  for each session whose dirty flag is set, made from its stored state; each session of the
  partition is sent the batch without its own entry, unless that leaves nothing; and the
  collection clears the flags of the partition.
\<close>

definition spec_batch :: "nat list \<Rightarrow> Player list \<Rightarrow> PlayerUpdate list" where
  "spec_batch ps h = map (\<lambda>b. mkUpdate (h ! b)) (filter (\<lambda>b. needsBroadcast (h ! b)) ps)"

definition spec_fanout :: "nat list \<Rightarrow> Player list \<Rightarrow> Emit list" where
  "spec_fanout ps h =
     concat (map (\<lambda>b. let own = filter (\<lambda>u. u_id u \<noteq> p_id (h ! b)) (spec_batch ps h)
                      in if own \<noteq> [] then [(ToRoom (p_id (h ! b)), PlayersUpdate own)] else [])
                 ps)"

definition spec_clear :: "nat list \<Rightarrow> Player list \<Rightarrow> Player list" where
  "spec_clear ps h =
     map (\<lambda>b. if b \<in> set ps then (h ! b)\<lparr>needsBroadcast := False\<rparr> else h ! b)
         [0..<length h]"

text \<open>Move messages of one session, handled one after the other.\<close>

fun moves :: "string \<Rightarrow> (MoveData \<times> nat) list \<Rightarrow> GameServer \<Rightarrow> GameServer" where
  "moves sid [] s = s"
| "moves sid ((d, now) # ds) s = moves sid ds (handlePlayerMove sid d now s)"

section \<open>Scenarios\<close>

text \<open>Concrete messages and states, used to run the handlers on explicit inputs.\<close>

definition join_as :: "string \<Rightarrow> string option \<Rightarrow> JoinData" where
  "join_as name uid = \<lparr>jd_username = Some name, jd_uid = uid, jd_roomId = Some ''hawkins-1''\<rparr>"

definition one_in_lobby :: GameServer where
  "one_in_lobby =
     \<lparr>rooms = [(''hawkins-1'',
                \<lparr>r_id = ''hawkins-1'', maxPlayers = 30, r_players = [], createdAt = 0,
                 selectedCharacters = []\<rparr>)],
      players = [(''s1'', 0)], socketToRoom = [(''s1'', ''hawkins-1'')], uidToSocket = [],
      heap = [\<lparr>p_id = ''s1'', username = ''Max'', position = \<lparr>vx = 0, vy = 0, vz = 0\<rparr>,
               rotation = 0, worldState = ''normal'', animation = ''idle'',
               characterId = None, firebaseUid = None, joinedAt = 1, lastUpdate = 1,
               needsBroadcast = False\<rparr>],
      io_rooms = [(''hawkins-1'', ''s1''), (''s1'', ''s1'')]\<rparr>"

definition jitter :: MoveData where
  "jitter = \<lparr>md_position = Some \<lparr>vx = 1 / 200, vy = 0, vz = - 1 / 100\<rparr>,
             md_rotation = Some (1 / 100), md_animation = Some ''idle''\<rparr>"

definition eleven_taken :: Room where
  "eleven_taken =
     \<lparr>r_id = ''hawkins-1'', maxPlayers = 30, r_players = [], createdAt = 0,
      selectedCharacters = [(''eleven'', ''s1'')]\<rparr>"

definition far_away :: MoveData where
  "far_away = \<lparr>md_position = Some \<lparr>vx = 1000, vy = 3, vz = - 1000\<rparr>,
               md_rotation = None, md_animation = Some ''run''\<rparr>"



definition picking_eleven :: "Event list" where
  "picking_eleven =
     [Connection ''s1'', PlayerJoin ''s1'' (join_as ''Max'' None) 1 (1 / 2) (1 / 2),
      CharacterSelect ''s1'' ''eleven'']"

definition eleven_picked :: GameServer where
  "eleven_picked =
     \<lparr>rooms = [(''hawkins-1'', eleven_taken)],
      players = [(''s1'', 0)], socketToRoom = [(''s1'', ''hawkins-1'')], uidToSocket = [],
      heap = [\<lparr>p_id = ''s1'', username = ''Max'', position = \<lparr>vx = 0, vy = 0, vz = 0\<rparr>,
               rotation = 0, worldState = ''normal'', animation = ''idle'',
               characterId = Some ''eleven'', firebaseUid = None, joinedAt = 1, lastUpdate = 1,
               needsBroadcast = False\<rparr>],
      io_rooms = [(''hawkins-1'', ''s1''), (''s1'', ''s1'')]\<rparr>"


definition two_pick :: "Event list" where
  "two_pick =
     [Connection ''a'', Connection ''b'',
      PlayerJoin ''a'' (join_as ''Ann'' None) 1 (1 / 2) (1 / 2),
      PlayerJoin ''b'' (join_as ''Bob'' None) 2 (1 / 2) (1 / 2),
      CharacterSelect ''a'' ''eleven'', CharacterSelect ''b'' ''mike'']"

definition state_after :: "Event list \<Rightarrow> GameServer \<Rightarrow> GameServer" where
  "state_after es s = (case run es s of Inl err \<Rightarrow> s | Inr (s', out) \<Rightarrow> s')"

definition room_of :: "GameServer \<Rightarrow> string \<Rightarrow> Room" where
  "room_of s rid = the (map_of (rooms s) rid)"

definition b_goes_under :: "Event list" where
  "b_goes_under =
     [Connection ''a'', Connection ''b'',
      PlayerJoin ''b'' (join_as ''Bob'' None) 1 (1 / 2) (1 / 2),
      CharacterSelect ''b'' ''mike'', PlayerReady ''b'', WorldChange ''b'' ''upsideDown'',
      PlayerJoin ''a'' (join_as ''Ann'' None) 2 (1 / 2) (1 / 2),
      CharacterSelect ''a'' ''eleven'']"

definition b_is_under :: GameServer where
  "b_is_under = state_after b_goes_under (GameServer_new 0)"

definition max_signs_in :: "Event list" where
  "max_signs_in =
     [Connection ''s1'', PlayerJoin ''s1'' (join_as ''Max'' (Some ''uid-1'')) 1 (1 / 2) (1 / 2),
      Connection ''s2'']"

definition max_signed_in :: GameServer where
  "max_signed_in = state_after max_signs_in (GameServer_new 0)"

definition both_ready :: GameServer where
  "both_ready = state_after (two_pick @ [PlayerReady ''a'', PlayerReady ''b'']) (GameServer_new 0)"

definition back_home :: MoveData where
  "back_home = \<lparr>md_position = Some \<lparr>vx = 10, vy = 0, vz = 10\<rparr>, md_rotation = Some 1,
                md_animation = None\<rparr>"

definition a_moves :: "Event list" where
  "a_moves = two_pick @ [PlayerReady ''a'', PlayerReady ''b'', PlayerMove ''a'' far_away 5]"

definition a_moved :: GameServer where
  "a_moved = state_after a_moves (GameServer_new 0)"

definition three_moves :: "(MoveData \<times> nat) list" where
  "three_moves = [(far_away, 5), (jitter, 6), (back_home, 7)]"

section \<open>Evaluation rules\<close>

lemmas player_defs = Player_new_def setCharacter_def setPosition_def setRotation_def
  hasPositionChanged_def hasRotationChanged_def serialize_def mkUpdate_def truthy_def

lemmas room_defs = Room_new_def getCharacterStates_def getPlayerCharacter_def
  releaseCharacter_def selectCharacter_def addPlayer_def removePlayer_def
  getPlayersInWorldState_def getPlayerCount_def isFull_def AVAILABLE_CHARACTERS_def
  error_text_def

lemmas config_defs = MAX_PLAYERS_PER_ROOM_def POSITION_THRESHOLD_def ROTATION_THRESHOLD_def
  minX_def maxX_def minZ_def maxZ_def

lemmas server_defs = createRoom_def GameServer_new_def getSpawnPosition_def
  handlePlayerJoin_def handleCharacterSelect_def handlePlayerReady_def clampPosition_def
  handlePlayerMove_def handleWorldChange_def handleAnimationChange_def handleChat_def
  handleDisconnect_def sendUpdates_def broadcastUpdates_def tickRoom_def gameLoopTick_def
  is_connected_def io_connect_def io_leave_all_def members_def deliveredTo_def

lemma one_in_lobby_run:
  "run [Connection ''s1'', PlayerJoin ''s1'' (join_as ''Max'' None) 1 (1 / 2) (1 / 2)]
       (GameServer_new 0)
   = Inr (one_in_lobby,
          [(ToSocket ''s1'',
            SelectCharacterScreen ''s1'' None
              (getCharacterStates (Room_new ''hawkins-1'' 30 0)))])"
  by (simp add: one_in_lobby_def join_as_def player_defs room_defs config_defs server_defs
      Let_def)


section \<open>Invariance lemmas\<close>

subsection \<open>Handlers that only touch stored players\<close>

lemma heap_step_refl: "heap_step h h"
  by (simp add: heap_step_def)

lemma heap_step_trans: "heap_step h h1 \<Longrightarrow> heap_step h1 h2 \<Longrightarrow> heap_step h h2"
  by (simp add: heap_step_def)

lemma heap_step_update:
  assumes "p_id p' = p_id (h ! a)" "characterId p' = characterId (h ! a)"
    "in_bounds (position (h ! a)) \<Longrightarrow> in_bounds (position p')"
    "valid_world (worldState (h ! a)) \<Longrightarrow> valid_world (worldState p')"
  shows "heap_step h (h[a := p'])"
  using assms by (cases "a < length h") (auto simp: heap_step_def nth_list_update)

lemma room_ok_heap_step: "heap_step h h' \<Longrightarrow> room_ok h room \<Longrightarrow> room_ok h' room"
  by (auto simp: room_ok_def heap_step_def)

lemma bounds_heap_step:
  assumes "heap_step h h'" "\<forall>p \<in> set h. in_bounds (position p)"
  shows "\<forall>p \<in> set h'. in_bounds (position p)"
proof
  fix p assume "p \<in> set h'"
  then obtain b where b: "b < length h'" "p = h' ! b" by (auto simp: in_set_conv_nth)
  with assms(1) have "b < length h" by (simp add: heap_step_def)
  with assms b show "in_bounds (position p)" by (auto simp: heap_step_def)
qed

lemma worlds_heap_step:
  assumes "heap_step (heap s) h'" "worlds_ok s"
  shows "worlds_ok (s\<lparr>heap := h'\<rparr>)"
  unfolding worlds_ok_def
proof
  fix p assume "p \<in> set (heap (s\<lparr>heap := h'\<rparr>))"
  then obtain b where b: "b < length h'" "p = h' ! b" by (auto simp: in_set_conv_nth)
  with assms(1) have "b < length (heap s)" by (simp add: heap_step_def)
  with assms b show "valid_world (worldState p)" by (auto simp: heap_step_def worlds_ok_def)
qed

lemma session_ok_heap_step:
  assumes "heap_step (heap s) h'" "session_ok s sid a"
  shows "session_ok (s\<lparr>heap := h'\<rparr>) sid a"
  using assms by (auto simp: session_ok_def heap_step_def)

lemma wf_heap_step:
  assumes "wf s" "heap_step (heap s) h'"
  shows "wf (s\<lparr>heap := h'\<rparr>)"
  using assms bounds_heap_step [OF assms(2)] room_ok_heap_step [OF assms(2)]
    session_ok_heap_step [OF assms(2)]
  unfolding wf_def by simp


lemma in_bounds_clampPosition: "in_bounds (clampPosition p)"
  by (simp add: in_bounds_def clampPosition_def minX_def maxX_def minZ_def maxZ_def)

lemma handlePlayerMove_heap_step:
  "\<exists>h'. handlePlayerMove sid d now s = s\<lparr>heap := h'\<rparr> \<and> heap_step (heap s) h'"
proof (cases "handlePlayerMove sid d now s = s")
  case True
  then show ?thesis by (intro exI [of _ "heap s"]) (simp add: heap_step_refl)
next
  case False
  then obtain a where a: "map_of (players s) sid = Some a"
    unfolding handlePlayerMove_def by (auto split: option.splits)
  obtain p' where p': "handlePlayerMove sid d now s = s\<lparr>heap := (heap s)[a := p']\<rparr>"
    "p_id p' = p_id (heap s ! a)" "characterId p' = characterId (heap s ! a)"
    "in_bounds (position (heap s ! a)) \<longrightarrow> in_bounds (position p')"
    "worldState p' = worldState (heap s ! a)"
    using False a in_bounds_clampPosition unfolding handlePlayerMove_def
    by (auto simp: Let_def setPosition_def setRotation_def in_bounds_def
        split: option.splits if_splits)
  then show ?thesis using heap_step_update [of p' "heap s" a] by auto
qed

lemma handleWorldChange_heap_step:
  assumes "handleWorldChange sid ws s = Inr (s', out)"
  shows "\<exists>h'. s' = s\<lparr>heap := h'\<rparr> \<and> heap_step (heap s) h'"
proof (cases "s' = s")
  case True
  then show ?thesis by (intro exI [of _ "heap s"]) (simp add: heap_step_refl)
next
  case False
  then obtain a where "s' = s\<lparr>heap := (heap s)[a := (heap s ! a)\<lparr>worldState := ws\<rparr>]\<rparr>"
    "valid_world ws"
    using assms unfolding handleWorldChange_def valid_world_def
    by (auto simp: Let_def split: option.splits if_splits)
  then show ?thesis
    using heap_step_update [of "(heap s ! a)\<lparr>worldState := ws\<rparr>" "heap s" a] by auto
qed

lemma handleAnimationChange_heap_step:
  "\<exists>h'. handleAnimationChange sid anim s = s\<lparr>heap := h'\<rparr> \<and> heap_step (heap s) h'"
proof (cases "map_of (players s) sid")
  case None
  then show ?thesis
    by (intro exI [of _ "heap s"]) (simp add: handleAnimationChange_def heap_step_refl)
next
  case (Some a)
  then show ?thesis
    using heap_step_update
      [of "(heap s ! a)\<lparr>animation := anim, needsBroadcast := True\<rparr>" "heap s" a]
    by (auto simp: handleAnimationChange_def)
qed

lemma collectUpdates_heap_step: "heap_step h (snd (collectUpdates ps h))"
proof (induction ps arbitrary: h)
  case Nil
  then show ?case by (simp add: heap_step_refl)
next
  case (Cons a ps)
  show ?case
  proof (cases "needsBroadcast (h ! a)")
    case True
    have "heap_step h (h[a := (h ! a)\<lparr>needsBroadcast := False\<rparr>])"
      by (rule heap_step_update) simp_all
    from heap_step_trans [OF this Cons.IH] True show ?thesis
      by (simp add: split_beta)
  next
    case False
    then show ?thesis using Cons.IH by simp
  qed
qed

lemma broadcastUpdates_heap_step: "heap_step h (fst (broadcastUpdates ps roomId h))"
  using collectUpdates_heap_step [of h ps]
  by (simp add: broadcastUpdates_def split_beta)

lemma tickRoom_heap_step: "heap_step h (fst (tickRoom roomId room h))"
  unfolding tickRoom_def
  by (auto simp: Let_def split_beta intro: heap_step_trans broadcastUpdates_heap_step)

lemma tickRooms_heap_step: "heap_step h (fst (tickRooms rs h))"
proof (induction rs arbitrary: h)
  case Nil
  then show ?case by (simp add: heap_step_refl)
next
  case (Cons r rs)
  obtain roomId room where r: "r = (roomId, room)" by (cases r)
  from heap_step_trans [OF tickRoom_heap_step Cons.IH] show ?case
    by (simp add: r split_beta)
qed

lemma gameLoopTick_heap_step:
  "\<exists>h'. fst (gameLoopTick s) = s\<lparr>heap := h'\<rparr> \<and> heap_step (heap s) h'"
  using tickRooms_heap_step [of "heap s" "rooms s"]
  by (auto simp: gameLoopTick_def split_beta)

lemma handleChat_state: "handleChat sid msg s = Inr (s', out) \<Longrightarrow> s' = s"
  unfolding handleChat_def by (auto simp: Let_def split: option.splits if_splits)

lemma wf_io_rooms: "wf (s\<lparr>io_rooms := io\<rparr>) = wf s"
  by (simp add: wf_def session_ok_def)

subsection \<open>The character arbiter\<close>

lemma update_fresh: "k \<notin> fst ` set al \<Longrightarrow> AList.update k v al = al @ [(k, v)]"
  by (induction al) auto

lemma set_update_cases:
  "(k', v') \<in> set (AList.update k v al) \<Longrightarrow> (k' = k \<and> v' = v) \<or> (k', v') \<in> set al"
  by (induction al) (auto split: if_splits)

lemma set_delete_iff: "(k', v') \<in> set (AList.delete k al) \<longleftrightarrow> (k', v') \<in> set al \<and> k' \<noteq> k"
  by (auto simp: AList.delete_eq)

lemma find_holder_None:
  "find (\<lambda>(c, p). p = sid) sel = None \<longleftrightarrow> sid \<notin> snd ` set sel"
  by (force simp: find_None_iff)

lemma find_holder_Some:
  assumes "find (\<lambda>(c, p). p = sid) sel = Some (c0, p0)"
  shows "p0 = sid \<and> (c0, sid) \<in> set sel"
  using assms by (induction sel) (auto split: if_splits)

lemma releaseCharacter_spec:
  assumes "arbiter_ok (selectedCharacters room)"
  shows "snd (releaseCharacter sid room) =
           room\<lparr>selectedCharacters := filter (\<lambda>(c, p). p \<noteq> sid) (selectedCharacters room)\<rparr>"
proof (cases "find (\<lambda>(c, p). p = sid) (selectedCharacters room)")
  case None
  then have "sid \<notin> snd ` set (selectedCharacters room)" by (simp add: find_holder_None)
  then have "filter (\<lambda>(c, p). p \<noteq> sid) (selectedCharacters room) = selectedCharacters room"
    by (intro filter_True) force
  with None show ?thesis by (simp add: releaseCharacter_def)
next
  case (Some e)
  obtain c0 p0 where e: "e = (c0, p0)" by (cases e)
  from find_holder_Some [OF Some [unfolded e]]
  have mem: "(c0, sid) \<in> set (selectedCharacters room)" and p0: "p0 = sid" by simp_all
  from assms have inj1: "inj_on fst (set (selectedCharacters room))"
    and inj2: "inj_on snd (set (selectedCharacters room))"
    by (simp_all add: arbiter_ok_def distinct_map)
  have "AList.delete c0 (selectedCharacters room)
        = filter (\<lambda>(c, p). p \<noteq> sid) (selectedCharacters room)"
    unfolding AList.delete_eq
  proof (rule filter_cong [OF refl])
    fix x assume x: "x \<in> set (selectedCharacters room)"
    obtain k p where kp: "x = (k, p)" by (cases x)
    have "k = c0 \<longleftrightarrow> p = sid"
      using inj_onD [OF inj1, of "(k, p)" "(c0, sid)"] inj_onD [OF inj2, of "(k, p)" "(c0, sid)"]
        x mem kp by auto
    then show "(case x of (k', _) \<Rightarrow> c0 \<noteq> k') = (case x of (c, p) \<Rightarrow> p \<noteq> sid)"
      by (auto simp: kp)
  qed
  with Some e show ?thesis by (simp add: releaseCharacter_def)
qed

lemma releaseCharacter_result:
  "fst (releaseCharacter sid room) = None \<longleftrightarrow> sid \<notin> snd ` set (selectedCharacters room)"
  using find_holder_None [of sid "selectedCharacters room"]
  unfolding releaseCharacter_def
  by (auto split: option.splits)

lemma arbiter_ok_filter: "arbiter_ok sel \<Longrightarrow> arbiter_ok (filter P sel)"
  by (auto simp: arbiter_ok_def distinct_map_filter)

lemma selectCharacter_spec:
  assumes "arbiter_ok (selectedCharacters room)"
    and "selectCharacter sid c room = Inr room'"
  shows "c \<in> set AVAILABLE_CHARACTERS \<and> c \<notin> fst ` set (selectedCharacters room) \<and>
         room' = room\<lparr>selectedCharacters :=
                        filter (\<lambda>(c', p). p \<noteq> sid) (selectedCharacters room) @ [(c, sid)]\<rparr>"
proof -
  from assms(2) have c: "c \<in> set AVAILABLE_CHARACTERS"
    and free: "map_of (selectedCharacters room) c = None"
    by (auto simp: selectCharacter_def split: if_splits)
  from free have notin: "c \<notin> fst ` set (selectedCharacters room)"
    by (simp add: map_of_eq_None_iff)
  then have "c \<notin> fst ` set (filter (\<lambda>(c', p). p \<noteq> sid) (selectedCharacters room))"
    by auto
  from update_fresh [OF this] assms(2) c free releaseCharacter_spec [OF assms(1), of sid]
  show ?thesis using notin by (simp add: selectCharacter_def)
qed

lemma selectCharacter_arbiter_ok:
  assumes "arbiter_ok (selectedCharacters room)"
    and "selectCharacter sid c room = Inr room'"
  shows "arbiter_ok (selectedCharacters room')"
  using selectCharacter_spec [OF assms] assms(1)
  by (auto simp: arbiter_ok_def distinct_map_filter)

lemma removePlayer_spec:
  assumes "arbiter_ok (selectedCharacters room)"
  shows "snd (removePlayer sid room) =
           room\<lparr>selectedCharacters := filter (\<lambda>(c, p). p \<noteq> sid) (selectedCharacters room),
                r_players := AList.delete sid (r_players room)\<rparr>"
  using releaseCharacter_spec [OF assms, of sid]
  by (simp add: removePlayer_def split_beta)

lemma removePlayer_result: "fst (removePlayer sid room) = fst (releaseCharacter sid room)"
  by (simp add: removePlayer_def split_beta)

subsection \<open>Joining\<close>

lemma handlePlayerJoin_rejected:
  assumes "case map_of (rooms s) (case jd_roomId d of None \<Rightarrow> ''hawkins-1'' | Some r \<Rightarrow> r) of
             None \<Rightarrow> True | Some room \<Rightarrow> isFull room"
  shows "fst (handlePlayerJoin sid d now r1 r2 s) = s"
  using assms unfolding handlePlayerJoin_def
  by (simp add: Let_def split: option.splits)

lemma handlePlayerJoin_accepted:
  assumes "map_of (rooms s) (case jd_roomId d of None \<Rightarrow> ''hawkins-1'' | Some r \<Rightarrow> r) = Some room"
    and "\<not> isFull room"
  shows "fst (handlePlayerJoin sid d now r1 r2 s) =
         s\<lparr>heap := heap s @
                    [(Player_new sid (case jd_username d of None \<Rightarrow> ''Player'' | Some n \<Rightarrow> n)
                        (getSpawnPosition r1 r2) now)\<lparr>firebaseUid := jd_uid d\<rparr>],
           players := AList.update sid (length (heap s)) (players s),
           socketToRoom := AList.update sid
                             (case jd_roomId d of None \<Rightarrow> ''hawkins-1'' | Some r \<Rightarrow> r)
                             (socketToRoom s),
           uidToSocket := (if truthy (jd_uid d)
                           then AList.update (the (jd_uid d)) sid (uidToSocket s)
                           else uidToSocket s),
           io_rooms := List.insert
                         (case jd_roomId d of None \<Rightarrow> ''hawkins-1'' | Some r \<Rightarrow> r, sid)
                         (io_rooms s)\<rparr>"
  using assms unfolding handlePlayerJoin_def
  by (simp add: Let_def)

lemma rooms_after_join: "rooms (fst (handlePlayerJoin sid d now r1 r2 s)) = rooms s"
  unfolding handlePlayerJoin_def by (simp add: Let_def split: option.splits)

lemma in_bounds_spawn:
  assumes "0 \<le> r1" "r1 < 1" "0 \<le> r2" "r2 < 1"
  shows "in_bounds (getSpawnPosition r1 r2)"
  using assms by (simp add: in_bounds_def getSpawnPosition_def minX_def maxX_def minZ_def maxZ_def)

lemma room_ok_append: "room_ok h room \<Longrightarrow> room_ok (h @ [pl]) room"
  by (fastforce simp: room_ok_def nth_append)

lemma wf_handlePlayerJoin:
  assumes "wf s" "0 \<le> r1" "r1 < 1" "0 \<le> r2" "r2 < 1"
  shows "wf (fst (handlePlayerJoin sid d now r1 r2 s))"
proof -
  let ?rid = "case jd_roomId d of None \<Rightarrow> ''hawkins-1'' | Some r \<Rightarrow> r"
  let ?s' = "fst (handlePlayerJoin sid d now r1 r2 s)"
  show ?thesis
  proof (cases "case map_of (rooms s) ?rid of None \<Rightarrow> True | Some room \<Rightarrow> isFull room")
    case True
    from handlePlayerJoin_rejected [OF this] assms(1) show ?thesis by simp
  next
    case False
    then obtain room where room: "map_of (rooms s) ?rid = Some room" "\<not> isFull room"
      by (auto split: option.splits)
    note s' = handlePlayerJoin_accepted [OF room, of sid now r1 r2]
    have rooms: "\<forall>rid r. map_of (rooms ?s') rid = Some r \<longrightarrow> rid \<noteq> [] \<and> room_ok (heap ?s') r"
      using assms(1) by (auto simp: s' wf_def room_ok_append)
    have bounds: "\<forall>p \<in> set (heap ?s'). in_bounds (position p)"
      using assms(1) in_bounds_spawn [OF assms(2-5)]
      by (auto simp: s' wf_def Player_new_def)
    have sessions: "session_ok ?s' sid2 a2"
      if look: "map_of (players ?s') sid2 = Some a2" for sid2 a2
    proof (cases "sid2 = sid")
      case True
      with look have "a2 = length (heap s)" by (simp add: s' update_conv')
      with True room(1) show ?thesis
        by (simp add: session_ok_def s' update_conv' Player_new_def)
    next
      case False
      with look have "map_of (players s) sid2 = Some a2" by (simp add: s' update_conv')
      with assms(1) have "session_ok s sid2 a2" by (simp add: wf_def)
      with False show ?thesis
        by (auto simp: session_ok_def s' update_conv' nth_append)
    qed
    from rooms bounds sessions show ?thesis unfolding wf_def by blast
  qed
qed

subsection \<open>Selecting a character\<close>

lemma handleCharacterSelect_cases:
  "fst (handleCharacterSelect sid c s) = s \<or>
   (\<exists>a rid room room'.
      map_of (players s) sid = Some a \<and> map_of (socketToRoom s) sid = Some rid \<and>
      map_of (rooms s) rid = Some room \<and> selectCharacter sid c room = Inr room' \<and>
      fst (handleCharacterSelect sid c s) =
        s\<lparr>rooms := AList.update rid room' (rooms s),
          heap := (heap s)[a := setCharacter c (heap s ! a)]\<rparr>)"
  unfolding handleCharacterSelect_def
  by (auto split: option.splits sum.splits)

lemma wf_handleCharacterSelect:
  assumes "wf s"
  shows "wf (fst (handleCharacterSelect sid c s))"
proof -
  let ?s' = "fst (handleCharacterSelect sid c s)"
  from handleCharacterSelect_cases [of sid c s] show ?thesis
  proof
    assume "?s' = s" with assms show ?thesis by simp
  next
    assume "\<exists>a rid room room'.
      map_of (players s) sid = Some a \<and> map_of (socketToRoom s) sid = Some rid \<and>
      map_of (rooms s) rid = Some room \<and> selectCharacter sid c room = Inr room' \<and>
      ?s' = s\<lparr>rooms := AList.update rid room' (rooms s),
               heap := (heap s)[a := setCharacter c (heap s ! a)]\<rparr>"
    then obtain a rid room room' where
      a: "map_of (players s) sid = Some a" and rid: "map_of (socketToRoom s) sid = Some rid"
      and room: "map_of (rooms s) rid = Some room"
      and sel: "selectCharacter sid c room = Inr room'"
      and s': "?s' = s\<lparr>rooms := AList.update rid room' (rooms s),
                        heap := (heap s)[a := setCharacter c (heap s ! a)]\<rparr>"
      by blast
    from assms room have rok: "room_ok (heap s) room" and ridne: "rid \<noteq> []"
      by (auto simp: wf_def)
    then have arb: "arbiter_ok (selectedCharacters room)" by (simp add: room_ok_def)
    note spec = selectCharacter_spec [OF arb sel]
    from spec have room': "room' = room\<lparr>selectedCharacters :=
        filter (\<lambda>(c', p). p \<noteq> sid) (selectedCharacters room) @ [(c, sid)]\<rparr>" by simp
    from assms a have sa: "session_ok s sid a" by (simp add: wf_def)
    then have alen: "a < length (heap s)" and aid: "p_id (heap s ! a) = sid"
      by (simp_all add: session_ok_def)
    have pid: "p_id (heap ?s' ! b) = p_id (heap s ! b)" for b
      by (cases "b = a") (simp_all add: s' alen setCharacter_def)
    have len: "length (heap ?s') = length (heap s)" by (simp add: s')
    have kept: "(c2, k) \<in> set (selectedCharacters room')"
      if "(c2, k) \<in> set (selectedCharacters room)" "k \<noteq> sid" for c2 k
      using that by (simp add: room')
    have mine: "(c, sid) \<in> set (selectedCharacters room')" by (simp add: room')
    have rok': "room_ok (heap ?s') room'"
      unfolding room_ok_def
    proof (intro conjI allI impI)
      show "arbiter_ok (selectedCharacters room')"
        by (rule selectCharacter_arbiter_ok [OF arb sel])
      show "distinct (map fst (r_players room'))" using rok by (simp add: room' room_ok_def)
      show "maxPlayers room' = MAX_PLAYERS_PER_ROOM" using rok by (simp add: room' room_ok_def)
    next
      fix k b assume "(k, b) \<in> set (r_players room')"
      then have kb: "(k, b) \<in> set (r_players room)" by (simp add: room')
      with rok have b: "b < length (heap s)" "p_id (heap s ! b) = k"
        "k \<in> snd ` set (selectedCharacters room)" by (auto simp: room_ok_def)
      show "b < length (heap ?s')" using b len by simp
      show "p_id (heap ?s' ! b) = k" using b pid by simp
      show "k \<in> snd ` set (selectedCharacters room')"
      proof (cases "k = sid")
        case True with mine show ?thesis by force
      next
        case False
        from b(3) obtain c2 where "(c2, k) \<in> set (selectedCharacters room)" by auto
        from kept [OF this False] show ?thesis by force
      qed
    qed
    have rooms: "rid2 \<noteq> [] \<and> room_ok (heap ?s') r" if "map_of (rooms ?s') rid2 = Some r" for rid2 r
    proof (cases "rid2 = rid")
      case True
      with that have "r = room'" by (simp add: s' update_conv')
      with rok' ridne True show ?thesis by simp
    next
      case False
      with that have "map_of (rooms s) rid2 = Some r" by (simp add: s' update_conv')
      with assms have "rid2 \<noteq> []" "room_ok (heap s) r" by (auto simp: wf_def)
      then show ?thesis using pid len by (auto simp: room_ok_def)
    qed
    have bounds: "\<forall>p \<in> set (heap ?s'). in_bounds (position p)"
    proof
      fix p assume "p \<in> set (heap ?s')"
      then have "p \<in> insert (setCharacter c (heap s ! a)) (set (heap s))"
        using set_update_subset_insert [of "heap s" a] by (auto simp: s')
      moreover have "heap s ! a \<in> set (heap s)" using alen by simp
      ultimately show "in_bounds (position p)"
        using assms by (auto simp: wf_def setCharacter_def)
    qed
    have sessions: "session_ok ?s' sid2 a2" if look: "map_of (players ?s') sid2 = Some a2" for sid2 a2
    proof -
      from look have l2: "map_of (players s) sid2 = Some a2" by (simp add: s')
      with assms have s2: "session_ok s sid2 a2" by (simp add: wf_def)
      then obtain rid2 room2 where r2: "map_of (socketToRoom s) sid2 = Some rid2"
        "map_of (rooms s) rid2 = Some room2"
        "\<forall>c2. characterId (heap s ! a2) = Some c2 \<longrightarrow> (c2, sid2) \<in> set (selectedCharacters room2)"
        and a2: "a2 < length (heap s)" "p_id (heap s ! a2) = sid2"
        by (auto simp: session_ok_def)
      show ?thesis
      proof (cases "sid2 = sid")
        case True
        with l2 a rid r2 have "a2 = a" "rid2 = rid" by simp_all
        with True mine alen aid rid show ?thesis
          by (simp add: session_ok_def s' update_conv' setCharacter_def)
      next
        case False
        with a2 aid have ne: "a2 \<noteq> a" by auto
        show ?thesis
        proof (cases "rid2 = rid")
          case True
          with r2 room have "room2 = room" by simp
          with r2(3) kept False
          have "\<forall>c2. characterId (heap s ! a2) = Some c2 \<longrightarrow> (c2, sid2) \<in> set (selectedCharacters room')"
            by blast
          with True r2(1) a2 ne show ?thesis
            by (simp add: session_ok_def s' update_conv')
        next
          case False
          with r2 a2 ne show ?thesis
            by (simp add: session_ok_def s' update_conv')
        qed
      qed
    qed
    from rooms bounds sessions show ?thesis unfolding wf_def by blast
  qed
qed

subsection \<open>Becoming ready, disconnecting\<close>

lemma handlePlayerReady_cases:
  "fst (handlePlayerReady sid s) = s \<or>
   (\<exists>a rid room.
      map_of (players s) sid = Some a \<and> map_of (socketToRoom s) sid = Some rid \<and>
      map_of (rooms s) rid = Some room \<and> truthy (characterId (heap s ! a)) \<and>
      fst (handlePlayerReady sid s) =
        s\<lparr>rooms := AList.update rid (addPlayer (p_id (heap s ! a)) a room) (rooms s)\<rparr>)"
  unfolding handlePlayerReady_def
  by (auto simp: Let_def split: option.splits)

lemma wf_handlePlayerReady:
  assumes "wf s"
  shows "wf (fst (handlePlayerReady sid s))"
proof -
  let ?s' = "fst (handlePlayerReady sid s)"
  from handlePlayerReady_cases [of sid s] show ?thesis
  proof
    assume "?s' = s" with assms show ?thesis by simp
  next
    assume "\<exists>a rid room.
      map_of (players s) sid = Some a \<and> map_of (socketToRoom s) sid = Some rid \<and>
      map_of (rooms s) rid = Some room \<and> truthy (characterId (heap s ! a)) \<and>
      ?s' = s\<lparr>rooms := AList.update rid (addPlayer (p_id (heap s ! a)) a room) (rooms s)\<rparr>"
    then obtain a rid room where
      a: "map_of (players s) sid = Some a" and rid: "map_of (socketToRoom s) sid = Some rid"
      and room: "map_of (rooms s) rid = Some room"
      and chr: "truthy (characterId (heap s ! a))"
      and s': "?s' = s\<lparr>rooms := AList.update rid (addPlayer (p_id (heap s ! a)) a room) (rooms s)\<rparr>"
      by blast
    from assms room have rok: "room_ok (heap s) room" and ridne: "rid \<noteq> []"
      by (auto simp: wf_def)
    from assms a have sa: "session_ok s sid a" by (simp add: wf_def)
    then have alen: "a < length (heap s)" and aid: "p_id (heap s ! a) = sid"
      by (simp_all add: session_ok_def)
    from chr obtain c where c: "characterId (heap s ! a) = Some c"
      by (auto simp: truthy_def split: option.splits)
    with sa rid room have holds: "(c, sid) \<in> set (selectedCharacters room)"
      by (auto simp: session_ok_def)
    let ?room' = "addPlayer sid a room"
    have rok': "room_ok (heap s) ?room'"
      unfolding room_ok_def
    proof (intro conjI allI impI)
      show "arbiter_ok (selectedCharacters ?room')" using rok by (simp add: room_ok_def addPlayer_def)
      show "distinct (map fst (r_players ?room'))"
        using rok by (simp add: room_ok_def addPlayer_def distinct_update)
      show "maxPlayers ?room' = MAX_PLAYERS_PER_ROOM" using rok by (simp add: room_ok_def addPlayer_def)
    next
      fix k b assume "(k, b) \<in> set (r_players ?room')"
      then have "(k = sid \<and> b = a) \<or> (k, b) \<in> set (r_players room)"
        using set_update_cases [of k b sid a "r_players room"] by (simp add: addPlayer_def)
      then have "b < length (heap s) \<and> p_id (heap s ! b) = k
                 \<and> k \<in> snd ` set (selectedCharacters room)"
        using alen aid holds rok by (force simp: room_ok_def)
      then show "b < length (heap s)" "p_id (heap s ! b) = k"
        "k \<in> snd ` set (selectedCharacters ?room')" by (simp_all add: addPlayer_def)
    qed
    have rooms: "rid2 \<noteq> [] \<and> room_ok (heap ?s') r" if "map_of (rooms ?s') rid2 = Some r" for rid2 r
    proof (cases "rid2 = rid")
      case True
      with that have "r = ?room'" by (simp add: s' update_conv' aid)
      with rok' ridne True show ?thesis by (simp add: s')
    next
      case False
      with that have "map_of (rooms s) rid2 = Some r" by (simp add: s' update_conv')
      with assms show ?thesis by (auto simp: wf_def s')
    qed
    have bounds: "\<forall>p \<in> set (heap ?s'). in_bounds (position p)"
      using assms by (simp add: s' wf_def)
    have sessions: "session_ok ?s' sid2 a2" if look: "map_of (players ?s') sid2 = Some a2" for sid2 a2
    proof -
      from look have l2: "map_of (players s) sid2 = Some a2" by (simp add: s')
      with assms have s2: "session_ok s sid2 a2" by (simp add: wf_def)
      then obtain rid2 room2 where r2: "map_of (socketToRoom s) sid2 = Some rid2"
        "map_of (rooms s) rid2 = Some room2"
        "\<forall>c2. characterId (heap s ! a2) = Some c2 \<longrightarrow> (c2, sid2) \<in> set (selectedCharacters room2)"
        and a2: "a2 < length (heap s)" "p_id (heap s ! a2) = sid2"
        by (auto simp: session_ok_def)
      show ?thesis
      proof (cases "rid2 = rid")
        case True
        with r2 room have "room2 = room" by simp
        with True r2 a2 show ?thesis
          by (simp add: session_ok_def s' update_conv' addPlayer_def)
      next
        case False
        with r2 a2 show ?thesis
          by (simp add: session_ok_def s' update_conv')
      qed
    qed
    from rooms bounds sessions show ?thesis unfolding wf_def by blast
  qed
qed

lemma players_after_disconnect:
  "players (fst (handleDisconnect sid s)) = AList.delete sid (players s)"
  unfolding handleDisconnect_def
  by (auto simp: Let_def split: option.splits prod.splits)

lemma socketToRoom_after_disconnect:
  "socketToRoom (fst (handleDisconnect sid s)) = AList.delete sid (socketToRoom s)"
  unfolding handleDisconnect_def
  by (auto simp: Let_def split: option.splits prod.splits)

lemma heap_after_disconnect: "heap (fst (handleDisconnect sid s)) = heap s"
  unfolding handleDisconnect_def
  by (auto simp: Let_def split_beta split: option.splits)

lemma rooms_after_disconnect:
  "rooms (fst (handleDisconnect sid s)) = rooms s \<or>
   (\<exists>rid room. map_of (socketToRoom s) sid = Some rid \<and> map_of (rooms s) rid = Some room \<and>
      rooms (fst (handleDisconnect sid s)) =
        AList.update rid (snd (removePlayer sid room)) (rooms s))"
  unfolding handleDisconnect_def
  by (auto simp: Let_def split_beta split: option.splits)

lemma wf_handleDisconnect:
  assumes "wf s"
  shows "wf (fst (handleDisconnect sid s))"
proof -
  let ?s' = "fst (handleDisconnect sid s)"
  define rs where "rs = rooms ?s'"
  note s' = heap_after_disconnect [of sid s] players_after_disconnect [of sid s]
    socketToRoom_after_disconnect [of sid s]
  have rs: "rs = rooms s \<or>
      (\<exists>rid room. map_of (socketToRoom s) sid = Some rid \<and> map_of (rooms s) rid = Some room \<and>
         rs = AList.update rid (snd (removePlayer sid room)) (rooms s))"
    unfolding rs_def by (rule rooms_after_disconnect)
  have rooms: "rid2 \<noteq> [] \<and> room_ok (heap s) r \<and>
      (\<exists>r0. map_of (rooms s) rid2 = Some r0 \<and>
         (\<forall>c2 k. (c2, k) \<in> set (selectedCharacters r0) \<longrightarrow> k \<noteq> sid \<longrightarrow>
              (c2, k) \<in> set (selectedCharacters r)))"
    if look: "map_of rs rid2 = Some r" for rid2 r
    using rs
  proof
    assume "rs = rooms s"
    with look assms show ?thesis by (auto simp: wf_def)
  next
    assume "\<exists>rid room. map_of (socketToRoom s) sid = Some rid \<and> map_of (rooms s) rid = Some room \<and>
         rs = AList.update rid (snd (removePlayer sid room)) (rooms s)"
    then obtain rid room where room: "map_of (rooms s) rid = Some room"
      and rs': "rs = AList.update rid (snd (removePlayer sid room)) (rooms s)" by blast
    from assms room have rok: "room_ok (heap s) room" and ridne: "rid \<noteq> []"
      by (auto simp: wf_def)
    then have arb: "arbiter_ok (selectedCharacters room)" by (simp add: room_ok_def)
    note rm = removePlayer_spec [OF arb, of sid]
    show ?thesis
    proof (cases "rid2 = rid")
      case True
      with look have r: "r = snd (removePlayer sid room)" by (simp add: rs' update_conv')
      have "room_ok (heap s) r"
        unfolding room_ok_def
      proof (intro conjI allI impI)
        show "arbiter_ok (selectedCharacters r)"
          using arbiter_ok_filter [OF arb] by (simp add: r rm)
        show "distinct (map fst (r_players r))"
          using rok by (simp add: r rm room_ok_def distinct_delete)
        show "maxPlayers r = MAX_PLAYERS_PER_ROOM" using rok by (simp add: r rm room_ok_def)
      next
        fix k b assume "(k, b) \<in> set (r_players r)"
        then have kb: "(k, b) \<in> set (r_players room)" "k \<noteq> sid"
          by (simp_all add: r rm set_delete_iff)
        with rok have b: "b < length (heap s)" "p_id (heap s ! b) = k"
          "k \<in> snd ` set (selectedCharacters room)" by (auto simp: room_ok_def)
        from b(3) kb(2) have "k \<in> snd ` set (selectedCharacters r)"
          by (force simp: r rm)
        with b show "b < length (heap s)" "p_id (heap s ! b) = k"
          "k \<in> snd ` set (selectedCharacters r)" by simp_all
      qed
      with True ridne room show ?thesis by (simp add: r rm)
    next
      case False
      with look have "map_of (rooms s) rid2 = Some r" by (simp add: rs' update_conv')
      with assms show ?thesis by (auto simp: wf_def)
    qed
  qed
  have bounds: "\<forall>p \<in> set (heap ?s'). in_bounds (position p)"
    using assms by (simp add: s' wf_def)
  have sessions: "session_ok ?s' sid2 a2" if look: "map_of (players ?s') sid2 = Some a2" for sid2 a2
  proof -
    from look have ne: "sid2 \<noteq> sid" and l2: "map_of (players s) sid2 = Some a2"
      by (auto simp: s' delete_conv' split: if_splits)
    with assms have s2: "session_ok s sid2 a2" by (simp add: wf_def)
    then obtain rid2 room2 where r2: "map_of (socketToRoom s) sid2 = Some rid2"
      "map_of (rooms s) rid2 = Some room2"
      "\<forall>c2. characterId (heap s ! a2) = Some c2 \<longrightarrow> (c2, sid2) \<in> set (selectedCharacters room2)"
      and a2: "a2 < length (heap s)" "p_id (heap s ! a2) = sid2"
      by (auto simp: session_ok_def)
    have "\<exists>r. map_of rs rid2 = Some r"
      using rs r2(2) by (auto simp: update_conv')
    then obtain r where r: "map_of rs rid2 = Some r" by blast
    from rooms [OF r] r2 ne
    have "\<forall>c2. characterId (heap s ! a2) = Some c2 \<longrightarrow> (c2, sid2) \<in> set (selectedCharacters r)"
      by auto
    with r r2(1) a2 ne show ?thesis
      by (simp add: session_ok_def s' delete_conv' rs_def [symmetric])
  qed
  from rooms bounds sessions show ?thesis
    unfolding wf_def rs_def [symmetric] s' by blast
qed

subsection \<open>Every reachable state is well-formed\<close>

lemma wf_init: "wf (GameServer_new now)"
  by (simp add: wf_def GameServer_new_def createRoom_def Room_new_def room_ok_def
      arbiter_ok_def)

lemma wf_dispatch:
  assumes "wf s" "admissible s e" "dispatch e s = Inr (s', out)"
  shows "wf s'"
proof (cases e)
  case (Connection sid)
  with assms show ?thesis by (auto simp: io_connect_def wf_io_rooms)
next
  case (PlayerJoin sid d now r1 r2)
  with assms wf_handlePlayerJoin [of s r1 r2 sid d now] show ?thesis by auto
next
  case (CharacterSelect sid c)
  with assms wf_handleCharacterSelect [of s sid c] show ?thesis by auto
next
  case (PlayerReady sid)
  with assms wf_handlePlayerReady [of s sid] show ?thesis by auto
next
  case (PlayerMove sid d now)
  with assms handlePlayerMove_heap_step [of sid d now s] wf_heap_step [of s] show ?thesis
    by auto
next
  case (WorldChange sid ws)
  with assms handleWorldChange_heap_step [of sid ws s s' out] wf_heap_step [of s]
  show ?thesis by auto
next
  case (AnimationChange sid anim)
  with assms handleAnimationChange_heap_step [of sid anim s] wf_heap_step [of s]
  show ?thesis by auto
next
  case (Chat sid msg)
  with assms handleChat_state [of sid msg s s' out] show ?thesis by auto
next
  case (Disconnect sid)
  have "wf (io_leave_all sid s)" using assms(1) by (simp add: io_leave_all_def wf_io_rooms)
  from wf_handleDisconnect [OF this, of sid] Disconnect assms(3) show ?thesis by auto
next
  case Tick
  with assms gameLoopTick_heap_step [of s] wf_heap_step [of s] show ?thesis by auto
qed

lemma reachable_wf: "reachable s \<Longrightarrow> wf s"
  by (induction rule: reachable.induct) (auto intro: wf_init wf_dispatch)

lemma reachable_run:
  assumes "reachable s" "feasible es s" "run es s = Inr (s', out)"
  shows "reachable s'"
  using assms
proof (induction es arbitrary: s out)
  case Nil
  then show ?case by simp
next
  case (Cons e es)
  from Cons.prems(2) obtain s1 out1 where d: "dispatch e s = Inr (s1, out1)"
    and adm: "admissible s e" and f: "feasible es s1"
    by (auto split: sum.splits)
  from Cons.prems(3) d obtain out2 where r: "run es s1 = Inr (s', out2)"
    by (auto split: sum.splits)
  from reachable.step [OF Cons.prems(1) adm d] have "reachable s1" .
  from Cons.IH [OF this f r] show ?case .
qed

subsection \<open>World states and the single room\<close>

lemma worlds_ok_fields:
  "heap s' = heap s \<Longrightarrow> worlds_ok s \<Longrightarrow> worlds_ok s'"
  by (simp add: worlds_ok_def)

lemma worlds_ok_join:
  assumes "worlds_ok s"
  shows "worlds_ok (fst (handlePlayerJoin sid d now r1 r2 s))"
proof (cases "case map_of (rooms s) (case jd_roomId d of None \<Rightarrow> ''hawkins-1'' | Some r \<Rightarrow> r) of
               None \<Rightarrow> True | Some room \<Rightarrow> isFull room")
  case True
  from handlePlayerJoin_rejected [OF this] assms show ?thesis by simp
next
  case False
  then obtain room where
    "map_of (rooms s) (case jd_roomId d of None \<Rightarrow> ''hawkins-1'' | Some r \<Rightarrow> r) = Some room"
    "\<not> isFull room" by (auto split: option.splits)
  from handlePlayerJoin_accepted [OF this] assms show ?thesis
    by (auto simp: worlds_ok_def Player_new_def valid_world_def)
qed

lemma worlds_ok_update:
  assumes "worlds_ok s" "worldState p' = worldState (heap s ! a)"
  shows "\<forall>p \<in> set ((heap s)[a := p']). valid_world (worldState p)"
proof (cases "a < length (heap s)")
  case True
  then have "heap s ! a \<in> set (heap s)" by simp
  with assms set_update_subset_insert [of "heap s" a p'] show ?thesis
    by (auto simp: worlds_ok_def)
next
  case False
  with assms show ?thesis by (simp add: list_update_beyond worlds_ok_def)
qed

lemma worlds_ok_select:
  assumes "worlds_ok s"
  shows "worlds_ok (fst (handleCharacterSelect sid c s))"
  using handleCharacterSelect_cases [of sid c s]
proof
  assume "fst (handleCharacterSelect sid c s) = s" with assms show ?thesis by simp
next
  assume "\<exists>a rid room room'.
    map_of (players s) sid = Some a \<and> map_of (socketToRoom s) sid = Some rid \<and>
    map_of (rooms s) rid = Some room \<and> selectCharacter sid c room = Inr room' \<and>
    fst (handleCharacterSelect sid c s) =
      s\<lparr>rooms := AList.update rid room' (rooms s),
        heap := (heap s)[a := setCharacter c (heap s ! a)]\<rparr>"
  then obtain a rid room' where s': "fst (handleCharacterSelect sid c s) =
      s\<lparr>rooms := AList.update rid room' (rooms s),
        heap := (heap s)[a := setCharacter c (heap s ! a)]\<rparr>" by blast
  from worlds_ok_update [OF assms, of "setCharacter c (heap s ! a)" a] show ?thesis
    unfolding s' by (simp add: worlds_ok_def setCharacter_def)
qed

lemma heap_after_ready: "heap (fst (handlePlayerReady sid s)) = heap s"
  using handlePlayerReady_cases [of sid s] by auto

lemma worlds_ok_dispatch:
  assumes "worlds_ok s" "dispatch e s = Inr (s', out)"
  shows "worlds_ok s'"
proof (cases e)
  case (Connection sid)
  with assms show ?thesis by (auto simp: io_connect_def worlds_ok_def)
next
  case (PlayerJoin sid d now r1 r2)
  with assms worlds_ok_join [of s sid d now r1 r2] show ?thesis by auto
next
  case (CharacterSelect sid c)
  with assms worlds_ok_select [of s sid c] show ?thesis by auto
next
  case (PlayerReady sid)
  with assms worlds_ok_fields [OF heap_after_ready [of sid s]] show ?thesis by auto
next
  case (PlayerMove sid d now)
  with assms handlePlayerMove_heap_step [of sid d now s] worlds_heap_step [of s] show ?thesis
    by auto
next
  case (WorldChange sid ws)
  with assms handleWorldChange_heap_step [of sid ws s s' out] worlds_heap_step [of s]
  show ?thesis by auto
next
  case (AnimationChange sid anim)
  with assms handleAnimationChange_heap_step [of sid anim s] worlds_heap_step [of s]
  show ?thesis by auto
next
  case (Chat sid msg)
  with assms handleChat_state [of sid msg s s' out] show ?thesis by auto
next
  case (Disconnect sid)
  have "worlds_ok (io_leave_all sid s)" using assms(1) by (simp add: io_leave_all_def worlds_ok_def)
  from worlds_ok_fields [OF heap_after_disconnect [of sid "io_leave_all sid s"] this]
    Disconnect assms(2) show ?thesis by auto
next
  case Tick
  with assms gameLoopTick_heap_step [of s] worlds_heap_step [of s] show ?thesis by auto
qed

lemma reachable_worlds_ok: "reachable s \<Longrightarrow> worlds_ok s"
proof (induction rule: reachable.induct)
  case (init now)
  show ?case by (simp add: worlds_ok_def GameServer_new_def createRoom_def)
next
  case (step s e s' out)
  then show ?case using worlds_ok_dispatch by blast
qed

lemma one_room_update:
  assumes "one_room s" "map_of (rooms s) rid = Some room"
  shows "\<exists>r. AList.update rid room' (rooms s) = [(''hawkins-1'', r)]"
  using assms by (auto simp: one_room_def split: if_splits)

lemma one_room_dispatch:
  assumes "one_room s" "dispatch e s = Inr (s', out)"
  shows "one_room s'"
proof -
  have "rooms s' = rooms s \<or>
        (\<exists>rid room room'. map_of (rooms s) rid = Some room \<and> rooms s' = AList.update rid room' (rooms s))"
  proof (cases e)
    case (Connection sid)
    with assms show ?thesis by (auto simp: io_connect_def)
  next
    case (PlayerJoin sid d now r1 r2)
    with assms rooms_after_join [of sid d now r1 r2 s] show ?thesis by auto
  next
    case (CharacterSelect sid c)
    with assms have s': "s' = fst (handleCharacterSelect sid c s)" by auto
    from handleCharacterSelect_cases [of sid c s] show ?thesis
      unfolding s' by (elim disjE exE conjE) (simp, rule disjI2, simp, blast)
  next
    case (PlayerReady sid)
    with assms have s': "s' = fst (handlePlayerReady sid s)" by auto
    from handlePlayerReady_cases [of sid s] show ?thesis
      unfolding s' by (elim disjE exE conjE) (simp, rule disjI2, simp, blast)
  next
    case (PlayerMove sid d now)
    with assms handlePlayerMove_heap_step [of sid d now s] show ?thesis by auto
  next
    case (WorldChange sid ws)
    with assms handleWorldChange_heap_step [of sid ws s s' out] show ?thesis by auto
  next
    case (AnimationChange sid anim)
    with assms handleAnimationChange_heap_step [of sid anim s] show ?thesis by auto
  next
    case (Chat sid msg)
    with assms handleChat_state [of sid msg s s' out] show ?thesis by auto
  next
    case (Disconnect sid)
    with assms have s': "s' = fst (handleDisconnect sid (io_leave_all sid s))" by auto
    from rooms_after_disconnect [of sid "io_leave_all sid s"] show ?thesis
      unfolding s' by (elim disjE exE conjE) (simp_all add: io_leave_all_def, blast)
  next
    case Tick
    with assms gameLoopTick_heap_step [of s] show ?thesis by auto
  qed
  with assms(1) one_room_update [OF assms(1)] show ?thesis
    by (auto simp: one_room_def)
qed

lemma reachable_one_room: "reachable s \<Longrightarrow> one_room s"
proof (induction rule: reachable.induct)
  case (init now)
  show ?case by (simp add: one_room_def GameServer_new_def createRoom_def)
next
  case (step s e s' out)
  then show ?case using one_room_dispatch by blast
qed

section \<open>Character selection\<close>

text \<open>
  Claim C4, as the code has it.  \<^verbatim>\<open>selectCharacter\<close> fails with
  \<open>InvalidCharacter\<close> exactly when the character is outside the six-character set, and
  with \<open>AlreadyTaken\<close> exactly when the character is in the set and some session holds
  it, the caller included: the check is \<^verbatim>\<open>selectedCharacters.has(characterId)\<close> and does
  not look at the holder.  So a session that selects again the character it already holds
  gets \<open>AlreadyTaken\<close>.
\<close>

theorem selectCharacter_failures:
  "(selectCharacter sid c room = Inl InvalidCharacter \<longleftrightarrow> c \<notin> set AVAILABLE_CHARACTERS) \<and>
   (selectCharacter sid c room = Inl AlreadyTaken \<longleftrightarrow>
      c \<in> set AVAILABLE_CHARACTERS \<and>
      (\<exists>holder. map_of (selectedCharacters room) c = Some holder)) \<and>
   (c \<in> set AVAILABLE_CHARACTERS \<and> map_of (selectedCharacters room) c = Some sid \<longrightarrow>
      selectCharacter sid c room = Inl AlreadyTaken)"
  unfolding selectCharacter_def by (auto simp: Let_def)

theorem selectCharacter_failures_witness:
  "selectCharacter ''s2'' ''barb'' eleven_taken = Inl InvalidCharacter \<and>
   selectCharacter ''s2'' ''eleven'' eleven_taken = Inl AlreadyTaken \<and>
   selectCharacter ''s1'' ''eleven'' eleven_taken = Inl AlreadyTaken"
  using selectCharacter_failures [of "''s2''" "''barb''" eleven_taken]
    selectCharacter_failures [of "''s2''" "''eleven''" eleven_taken]
    selectCharacter_failures [of "''s1''" "''eleven''" eleven_taken]
  by (simp add: eleven_taken_def AVAILABLE_CHARACTERS_def)

text \<open>
  The claim as the specification words it fails: the first selection of \<open>eleven\<close> by
  \<open>s1\<close> succeeds, and the same selection again is refused instead of succeeding as a
  no-op, although no other session holds the character.
\<close>

theorem reselect_own_character_counterexample:
  "selectCharacter ''s1'' ''eleven'' (Room_new ''hawkins-1'' 30 0) = Inr eleven_taken \<and>
   selectCharacter ''s1'' ''eleven'' eleven_taken = Inl AlreadyTaken"
  by (simp add: eleven_taken_def room_defs)

section \<open>Movement\<close>

text \<open>
  Claim C7 (threshold suppression).  For a registered session, a move whose clamped position
  differs from the stored one by at most the position threshold in each component, whose
  rotation differs by at most the rotation threshold, and whose animation is the stored one
  (every field being optional) returns the server state as it was: position, rotation,
  animation, timestamp and dirty flag are untouched.
\<close>

theorem threshold_suppression:
  assumes "map_of (players s) sid = Some a"
    and "case md_position data of None \<Rightarrow> True
         | Some p \<Rightarrow>
             \<bar>vx (position (heap s ! a)) - vx (clampPosition p)\<bar> \<le> POSITION_THRESHOLD \<and>
             \<bar>vy (position (heap s ! a)) - vy (clampPosition p)\<bar> \<le> POSITION_THRESHOLD \<and>
             \<bar>vz (position (heap s ! a)) - vz (clampPosition p)\<bar> \<le> POSITION_THRESHOLD"
    and "case md_rotation data of None \<Rightarrow> True
         | Some r \<Rightarrow> \<bar>rotation (heap s ! a) - r\<bar> \<le> ROTATION_THRESHOLD"
    and "case md_animation data of None \<Rightarrow> True
         | Some an \<Rightarrow> an = animation (heap s ! a)"
  shows "handlePlayerMove sid data now s = s"
  using assms unfolding handlePlayerMove_def
  by (auto simp: Let_def hasPositionChanged_def hasRotationChanged_def truthy_def
      split: option.splits)

theorem threshold_suppression_witness:
  "map_of (players one_in_lobby) ''s1'' = Some 0 \<and>
   handlePlayerMove ''s1'' jitter 7 one_in_lobby = one_in_lobby"
  using threshold_suppression [of one_in_lobby "''s1''" 0 jitter 7]
  by (simp add: one_in_lobby_def jitter_def clampPosition_def config_defs)

section \<open>Disconnection\<close>

lemma handleDisconnect_absent:
  assumes "map_of (players s) sid = None"
  shows "handleDisconnect sid s =
           (s\<lparr>players := AList.delete sid (players s),
              socketToRoom := AList.delete sid (socketToRoom s)\<rparr>, [])"
  using assms unfolding handleDisconnect_def by simp

lemma io_rooms_after_disconnect: "io_rooms (fst (handleDisconnect sid s)) = io_rooms s"
  unfolding handleDisconnect_def
  by (auto simp: Let_def split_beta split: option.splits)

lemma io_leave_all_again:
  "io_leave_all sid (fst (handleDisconnect sid (io_leave_all sid s)))
   = fst (handleDisconnect sid (io_leave_all sid s))"
proof -
  let ?s1 = "fst (handleDisconnect sid (io_leave_all sid s))"
  have "io_rooms ?s1 = filter (\<lambda>(r, i). i \<noteq> sid) (io_rooms s)"
    by (simp add: io_rooms_after_disconnect io_leave_all_def)
  then have "filter (\<lambda>(r, i). i \<noteq> sid) (io_rooms ?s1) = io_rooms ?s1" by simp
  then show ?thesis by (simp add: io_leave_all_def)
qed

text \<open>
  Claim C9 (idempotent disconnect).  Whatever the state and the session id, running the
  disconnect handler on the state left by a first run returns that state unchanged (rooms,
  players, mappings and store) and emits nothing: no second \<^verbatim>\<open>player:left\<close>, no second
  \<^verbatim>\<open>character:stateChanged\<close>.  The same holds of the whole disconnect event, in which the
  transport first takes the socket out of its rooms.  The handler has no failing branch.
\<close>

theorem disconnect_idempotent:
  "handleDisconnect sid (fst (handleDisconnect sid s)) = (fst (handleDisconnect sid s), []) \<and>
   dispatch (Disconnect sid) (fst (handleDisconnect sid (io_leave_all sid s)))
     = Inr (fst (handleDisconnect sid (io_leave_all sid s)), [])"
proof -
  have once: "handleDisconnect sid (fst (handleDisconnect sid t)) = (fst (handleDisconnect sid t), [])"
    for t
  proof -
    let ?s1 = "fst (handleDisconnect sid t)"
    have gone: "map_of (players ?s1) sid = None"
      by (simp add: players_after_disconnect delete_conv')
    have p: "AList.delete sid (players ?s1) = players ?s1"
      by (simp add: players_after_disconnect delete_idem)
    have r: "AList.delete sid (socketToRoom ?s1) = socketToRoom ?s1"
      by (simp add: socketToRoom_after_disconnect delete_idem)
    show ?thesis
      unfolding handleDisconnect_absent [OF gone] p r by simp
  qed
  from once [of s] once [of "io_leave_all sid s"] io_leave_all_again [of sid s]
  show ?thesis by simp
qed

section \<open>Position bounds\<close>






section \<open>Character ownership\<close>

lemma picking_eleven_feasible: "feasible picking_eleven (GameServer_new 0)"
  by (simp add: picking_eleven_def eleven_picked_def join_as_def eleven_taken_def player_defs
      room_defs config_defs server_defs
      Let_def)

lemma picking_eleven_run: "map_sum id fst (run picking_eleven (GameServer_new 0)) = Inr eleven_picked"
  by (simp add: picking_eleven_def eleven_picked_def join_as_def eleven_taken_def player_defs
      room_defs config_defs server_defs
      Let_def)

lemma reachable_eleven_picked: "reachable eleven_picked"
proof -
  from picking_eleven_run obtain out where "run picking_eleven (GameServer_new 0) = Inr (eleven_picked, out)"
    by (cases "run picking_eleven (GameServer_new 0)") auto
  from reachable_run [OF reachable.init picking_eleven_feasible this] show ?thesis .
qed

lemma distinct_map_filter_le1:
  "distinct (map f xs) \<Longrightarrow> length (filter (\<lambda>x. f x = v) xs) \<le> 1"
proof (induction xs)
  case Nil
  then show ?case by simp
next
  case (Cons a xs)
  show ?case
  proof (cases "f a = v")
    case True
    with Cons.prems have "v \<notin> f ` set xs" by simp
    then have "filter (\<lambda>x. f x = v) xs = []" by (auto simp: filter_empty_conv)
    with True show ?thesis by simp
  next
    case False
    with Cons show ?thesis by simp
  qed
qed

text \<open>
  Claim C3 (at most one owner, atomic reassignment).  In every room of a reachable state the
  arbiter map has at most one entry for a character and at most one entry for a session.
  When \<^verbatim>\<open>selectCharacter\<close> succeeds, the session holds exactly the new character in the
  returned room (a character it held before is gone), the entries of the other sessions are
  as before, and the handler goes from the old room to this one in one step: the two
  snapshots it emits are both taken from the returned room.
\<close>

theorem character_ownership:
  assumes "reachable s" and "map_of (rooms s) rid = Some room"
  shows "(\<forall>c. length (filter (\<lambda>(c', p). c' = c) (selectedCharacters room)) \<le> 1) \<and>
         (\<forall>sid. length (filter (\<lambda>(c, p). p = sid) (selectedCharacters room)) \<le> 1) \<and>
         (\<forall>sid c room'. selectCharacter sid c room = Inr room' \<longrightarrow>
            filter (\<lambda>(c', p). p = sid) (selectedCharacters room') = [(c, sid)] \<and>
            (\<forall>c' p. p \<noteq> sid \<longrightarrow>
               (c', p) \<in> set (selectedCharacters room') = ((c', p) \<in> set (selectedCharacters room))) \<and>
            (\<forall>c. length (filter (\<lambda>(c', p). c' = c) (selectedCharacters room')) \<le> 1) \<and>
            (\<forall>a. map_of (players s) sid = Some a \<and> map_of (socketToRoom s) sid = Some rid \<longrightarrow>
               handleCharacterSelect sid c s =
                 (s\<lparr>rooms := AList.update rid room' (rooms s),
                    heap := (heap s)[a := setCharacter c (heap s ! a)]\<rparr>,
                  [(ToSocket sid, CharacterSelected c (getCharacterStates room')),
                   (ToRoomExcept rid sid, CharacterStateChanged (getCharacterStates room'))])))"
proof -
  from reachable_wf [OF assms(1)] assms(2) have "room_ok (heap s) room" and ridne: "rid \<noteq> []"
    by (simp_all add: wf_def)
  then have arb: "arbiter_ok (selectedCharacters room)" by (simp add: room_ok_def)
  have keys: "length (filter (\<lambda>(c', p). c' = c) sel) \<le> 1" if "arbiter_ok sel" for sel c
  proof -
    have "(\<lambda>(c', p). c' = c) = (\<lambda>x :: string \<times> string. fst x = c)" by auto
    with distinct_map_filter_le1 [of fst sel c] that show ?thesis
      by (simp add: arbiter_ok_def)
  qed
  have vals: "length (filter (\<lambda>(c, p). p = sid) sel) \<le> 1" if "arbiter_ok sel" for sel sid
  proof -
    have "(\<lambda>(c, p). p = sid) = (\<lambda>x :: string \<times> string. snd x = sid)" by auto
    with distinct_map_filter_le1 [of snd sel sid] that show ?thesis
      by (simp add: arbiter_ok_def)
  qed
  have sel: "filter (\<lambda>(c', p). p = sid) (selectedCharacters room') = [(c, sid)] \<and>
            (\<forall>c' p. p \<noteq> sid \<longrightarrow>
               (c', p) \<in> set (selectedCharacters room') = ((c', p) \<in> set (selectedCharacters room))) \<and>
            (\<forall>c. length (filter (\<lambda>(c', p). c' = c) (selectedCharacters room')) \<le> 1) \<and>
            (\<forall>a. map_of (players s) sid = Some a \<and> map_of (socketToRoom s) sid = Some rid \<longrightarrow>
               handleCharacterSelect sid c s =
                 (s\<lparr>rooms := AList.update rid room' (rooms s),
                    heap := (heap s)[a := setCharacter c (heap s ! a)]\<rparr>,
                  [(ToSocket sid, CharacterSelected c (getCharacterStates room')),
                   (ToRoomExcept rid sid, CharacterStateChanged (getCharacterStates room'))]))"
    if ok: "selectCharacter sid c room = Inr room'" for sid c room'
  proof -
    from selectCharacter_spec [OF arb ok]
    have room': "selectedCharacters room' =
        filter (\<lambda>(c', p). p \<noteq> sid) (selectedCharacters room) @ [(c, sid)]" by simp
    have "filter (\<lambda>(c', p). p = sid) (filter (\<lambda>(c', p). p \<noteq> sid) (selectedCharacters room)) = []"
      by (auto simp: filter_empty_conv)
    then have "filter (\<lambda>(c', p). p = sid) (selectedCharacters room') = [(c, sid)]"
      by (simp add: room')
    moreover have "\<forall>c' p. p \<noteq> sid \<longrightarrow>
               (c', p) \<in> set (selectedCharacters room') = ((c', p) \<in> set (selectedCharacters room))"
      by (auto simp: room')
    moreover have "\<forall>c. length (filter (\<lambda>(c', p). c' = c) (selectedCharacters room')) \<le> 1"
      using keys [OF selectCharacter_arbiter_ok [OF arb ok]] by blast
    moreover have "\<forall>a. map_of (players s) sid = Some a \<and> map_of (socketToRoom s) sid = Some rid \<longrightarrow>
               handleCharacterSelect sid c s =
                 (s\<lparr>rooms := AList.update rid room' (rooms s),
                    heap := (heap s)[a := setCharacter c (heap s ! a)]\<rparr>,
                  [(ToSocket sid, CharacterSelected c (getCharacterStates room')),
                   (ToRoomExcept rid sid, CharacterStateChanged (getCharacterStates room'))])"
      using ok ridne assms(2) by (simp add: handleCharacterSelect_def)
    ultimately show ?thesis by blast
  qed
  from keys [OF arb] vals [OF arb] sel show ?thesis by blast
qed

theorem character_ownership_witness:
  "reachable eleven_picked \<and> map_of (rooms eleven_picked) ''hawkins-1'' = Some eleven_taken \<and>
   selectCharacter ''s1'' ''mike'' eleven_taken =
     Inr (eleven_taken\<lparr>selectedCharacters := [(''mike'', ''s1'')]\<rparr>) \<and>
   filter (\<lambda>(c', p). p = ''s1'') (selectedCharacters (eleven_taken\<lparr>selectedCharacters := [(''mike'', ''s1'')]\<rparr>))
     = [(''mike'', ''s1'')] \<and>
   length (filter (\<lambda>(c, p). p = ''s1'') (selectedCharacters eleven_taken)) \<le> 1"
proof -
  have m: "map_of (rooms eleven_picked) ''hawkins-1'' = Some eleven_taken"
    by (simp add: eleven_picked_def)
  have s: "selectCharacter ''s1'' ''mike'' eleven_taken =
     Inr (eleven_taken\<lparr>selectedCharacters := [(''mike'', ''s1'')]\<rparr>)"
    by (simp add: eleven_taken_def room_defs)
  from character_ownership [OF reachable_eleven_picked m] s reachable_eleven_picked m
  show ?thesis by simp
qed

section \<open>Room capacity\<close>






section \<open>Partition isolation\<close>

text \<open>
  Claim C1 (partition isolation), at the ready handler.  \<open>b\<close> is ready and has gone to the
  upside-down world; \<open>a\<close> joins the same room, picks a character and becomes ready in the
  normal world.  The roster \<open>a\<close> is sent is filtered by world state, but the
  \<^verbatim>\<open>player:spawned\<close> event goes out with \<^verbatim>\<open>socket.to(roomId)\<close>, to every other socket of
  the room: \<open>b\<close> receives it, although the world states of \<open>a\<close> and \<open>b\<close> differ before
  and after.  The comment above the call reads \<^verbatim>\<open>Notify other players in same world state\<close>,
  and the world-change handler sends the same event to the players of one world state only.
\<close>

theorem spawned_crosses_partitions:
  "feasible (b_goes_under @ [PlayerReady ''a'']) (GameServer_new 0) \<and>
   map_of (players b_is_under) ''a'' = Some 1 \<and> map_of (players b_is_under) ''b'' = Some 0 \<and>
   map_of (socketToRoom b_is_under) ''a'' = Some ''hawkins-1'' \<and>
   map_of (socketToRoom b_is_under) ''b'' = Some ''hawkins-1'' \<and>
   map fst (r_players (room_of b_is_under ''hawkins-1'')) = [''b''] \<and>
   worldState (heap (fst (handlePlayerReady ''a'' b_is_under)) ! 1) = ''normal'' \<and>
   worldState (heap (fst (handlePlayerReady ''a'' b_is_under)) ! 0) = ''upsideDown'' \<and>
   deliveredTo (io_rooms b_is_under) (snd (handlePlayerReady ''a'' b_is_under)) ''b'' =
     [PlayerSpawned
        \<lparr>pd_id = ''a'', pd_username = ''Ann'', pd_position = \<lparr>vx = 0, vy = 0, vz = 0\<rparr>,
         pd_rotation = 0, pd_worldState = ''normal'', pd_animation = ''idle'',
         pd_characterId = Some ''eleven''\<rparr>]"
  by (simp add: b_goes_under_def b_is_under_def state_after_def room_of_def join_as_def
      player_defs room_defs config_defs server_defs Let_def)

section \<open>Reconnection by identity token\<close>

lemma uidToSocket_after_disconnect:
  assumes "map_of (players s) sid = Some a" "map_of (socketToRoom s) sid = Some rid" "rid \<noteq> []"
    "firebaseUid (heap s ! a) = Some u" "u \<noteq> []"
  shows "uidToSocket (fst (handleDisconnect sid s)) = AList.delete u (uidToSocket s)"
  using assms unfolding handleDisconnect_def
  by (auto simp: Let_def split_beta truthy_def split: option.splits)

lemma no_log_without_entry:
  assumes "map_of (uidToSocket s) u = None"
  shows "(Console, LogReconnected u) \<notin> set (snd (handlePlayerJoin sid d now r1 r2 s))"
  using assms unfolding handlePlayerJoin_def
  by (auto simp: Let_def truthy_def split: option.splits)

text \<open>
  Claim C10 (the identity-token entry of a newer session is lost).  In a reachable state let
  the session \<open>sid1\<close> be registered with the identity token \<open>u\<close>.  When another socket
  \<open>sid2\<close> joins with the same token and is accepted, the entry of \<open>u\<close> in
  \<^verbatim>\<open>uidToSocket\<close> points at \<open>sid2\<close> while \<open>sid1\<close> stays registered.  When \<open>sid1\<close>
  then disconnects, the handler deletes the entry of \<open>u\<close>: \<open>sid2\<close> is still registered,
  the map has no entry for \<open>u\<close>, and no later join logs a reconnection for \<open>u\<close>.
\<close>

theorem reconnection_entry_lost:
  assumes "reachable s"
    and "map_of (players s) sid1 = Some a1" and "firebaseUid (heap s ! a1) = Some u" and "u \<noteq> []"
    and "sid2 \<noteq> sid1" and "jd_uid d = Some u"
    and "map_of (rooms s) (case jd_roomId d of None \<Rightarrow> ''hawkins-1'' | Some r \<Rightarrow> r) = Some room"
    and "\<not> isFull room"
  shows "map_of (uidToSocket (fst (handlePlayerJoin sid2 d now r1 r2 s))) u = Some sid2 \<and>
         map_of (players (fst (handlePlayerJoin sid2 d now r1 r2 s))) sid1 = Some a1 \<and>
         map_of (uidToSocket (fst (handleDisconnect sid1 (fst (handlePlayerJoin sid2 d now r1 r2 s))))) u
           = None \<and>
         map_of (players (fst (handleDisconnect sid1 (fst (handlePlayerJoin sid2 d now r1 r2 s))))) sid2
           = Some (length (heap s)) \<and>
         (Console, LogReconnected u) \<notin>
           set (snd (handlePlayerJoin sid3 d3 now3 r3 r4
                  (fst (handleDisconnect sid1 (fst (handlePlayerJoin sid2 d now r1 r2 s))))))"
proof -
  let ?s1 = "fst (handlePlayerJoin sid2 d now r1 r2 s)"
  let ?s2 = "fst (handleDisconnect sid1 ?s1)"
  note s1 = handlePlayerJoin_accepted [OF assms(7,8), of sid2 now r1 r2]
  from reachable_wf [OF assms(1)] assms(2) have ok: "session_ok s sid1 a1"
    by (simp add: wf_def)
  then obtain rid room1 where rid: "map_of (socketToRoom s) sid1 = Some rid"
    "map_of (rooms s) rid = Some room1" and a1: "a1 < length (heap s)"
    by (auto simp: session_ok_def)
  from reachable_wf [OF assms(1)] rid(2) have ridne: "rid \<noteq> []" by (auto simp: wf_def)
  have u1: "map_of (uidToSocket ?s1) u = Some sid2"
    using assms(4,6) by (simp add: s1 truthy_def update_conv')
  have p1: "map_of (players ?s1) sid1 = Some a1"
    using assms(2,5) by (simp add: s1 update_conv')
  have r1: "map_of (socketToRoom ?s1) sid1 = Some rid"
    using rid(1) assms(5) by (simp add: s1 update_conv')
  have h1: "firebaseUid (heap ?s1 ! a1) = Some u"
    using assms(3) a1 by (simp add: s1 nth_append)
  have u2: "map_of (uidToSocket ?s2) u = None"
    unfolding uidToSocket_after_disconnect [OF p1 r1 ridne h1 assms(4)]
    by (simp add: delete_conv')
  have p2: "map_of (players ?s2) sid2 = Some (length (heap s))"
    using assms(5) by (simp add: players_after_disconnect delete_conv' s1 update_conv')
  from u1 p1 u2 p2 no_log_without_entry [OF u2] show ?thesis by blast
qed

lemma reachable_max_signed_in: "reachable max_signed_in"
proof -
  have f: "feasible max_signs_in (GameServer_new 0)"
    by (simp add: max_signs_in_def join_as_def player_defs room_defs config_defs server_defs Let_def)
  have "map_sum id fst (run max_signs_in (GameServer_new 0)) = Inr max_signed_in"
    by (simp add: max_signed_in_def state_after_def max_signs_in_def join_as_def player_defs
        room_defs config_defs server_defs Let_def)
  then obtain out where "run max_signs_in (GameServer_new 0) = Inr (max_signed_in, out)"
    by (cases "run max_signs_in (GameServer_new 0)") auto
  from reachable_run [OF reachable.init f this] show ?thesis .
qed

lemma max_signed_in_eq:
  "max_signed_in =
     \<lparr>rooms = [(''hawkins-1'',
                \<lparr>r_id = ''hawkins-1'', maxPlayers = 30, r_players = [], createdAt = 0,
                 selectedCharacters = []\<rparr>)],
      players = [(''s1'', 0)], socketToRoom = [(''s1'', ''hawkins-1'')],
      uidToSocket = [(''uid-1'', ''s1'')],
      heap = [\<lparr>p_id = ''s1'', username = ''Max'', position = \<lparr>vx = 0, vy = 0, vz = 0\<rparr>,
               rotation = 0, worldState = ''normal'', animation = ''idle'',
               characterId = None, firebaseUid = Some ''uid-1'', joinedAt = 1, lastUpdate = 1,
               needsBroadcast = False\<rparr>],
      io_rooms = [(''s2'', ''s2''), (''hawkins-1'', ''s1''), (''s1'', ''s1'')]\<rparr>"
  by (simp add: max_signed_in_def state_after_def max_signs_in_def join_as_def player_defs
      room_defs config_defs server_defs Let_def)

theorem reconnection_entry_lost_witness:
  "reachable max_signed_in \<and> map_of (uidToSocket max_signed_in) ''uid-1'' = Some ''s1'' \<and>
   map_of (uidToSocket (fst (handlePlayerJoin ''s2'' (join_as ''Max'' (Some ''uid-1'')) 2 0 0
      max_signed_in))) ''uid-1'' = Some ''s2'' \<and>
   map_of (uidToSocket (fst (handleDisconnect ''s1''
      (fst (handlePlayerJoin ''s2'' (join_as ''Max'' (Some ''uid-1'')) 2 0 0 max_signed_in)))))
      ''uid-1'' = None \<and>
   map_of (players (fst (handleDisconnect ''s1''
      (fst (handlePlayerJoin ''s2'' (join_as ''Max'' (Some ''uid-1'')) 2 0 0 max_signed_in)))))
      ''s2'' = Some 1"
proof -
  have h: "map_of (players max_signed_in) ''s1'' = Some 0"
    "firebaseUid (heap max_signed_in ! 0) = Some ''uid-1''" "''uid-1'' \<noteq> []" "''s2'' \<noteq> ''s1''"
    "jd_uid (join_as ''Max'' (Some ''uid-1'')) = Some ''uid-1''"
    "map_of (rooms max_signed_in)
       (case jd_roomId (join_as ''Max'' (Some ''uid-1'')) of None \<Rightarrow> ''hawkins-1'' | Some r \<Rightarrow> r)
     = Some (Room_new ''hawkins-1'' 30 0)"
    "\<not> isFull (Room_new ''hawkins-1'' 30 0)"
    by (simp_all add: max_signed_in_eq join_as_def Room_new_def isFull_def)
  from reconnection_entry_lost [OF reachable_max_signed_in h, of 2 0 0 "''s3''" "join_as ''Max'' (Some ''uid-1'')" 3 0 0]
    reachable_max_signed_in
  show ?thesis by (simp add: max_signed_in_eq)
qed

section \<open>Two ready sessions\<close>

lemma both_ready_eq:
  "both_ready =
     \<lparr>rooms = [(''hawkins-1'',
                \<lparr>r_id = ''hawkins-1'', maxPlayers = 30, r_players = [(''a'', 0), (''b'', 1)],
                 createdAt = 0,
                 selectedCharacters = [(''eleven'', ''a''), (''mike'', ''b'')]\<rparr>)],
      players = [(''a'', 0), (''b'', 1)],
      socketToRoom = [(''a'', ''hawkins-1''), (''b'', ''hawkins-1'')], uidToSocket = [],
      heap = [\<lparr>p_id = ''a'', username = ''Ann'', position = \<lparr>vx = 0, vy = 0, vz = 0\<rparr>,
               rotation = 0, worldState = ''normal'', animation = ''idle'',
               characterId = Some ''eleven'', firebaseUid = None, joinedAt = 1, lastUpdate = 1,
               needsBroadcast = False\<rparr>,
              \<lparr>p_id = ''b'', username = ''Bob'', position = \<lparr>vx = 0, vy = 0, vz = 0\<rparr>,
               rotation = 0, worldState = ''normal'', animation = ''idle'',
               characterId = Some ''mike'', firebaseUid = None, joinedAt = 2, lastUpdate = 2,
               needsBroadcast = False\<rparr>],
      io_rooms = [(''hawkins-1'', ''b''), (''hawkins-1'', ''a''), (''b'', ''b''), (''a'', ''a'')]\<rparr>"
  by (simp add: both_ready_def state_after_def two_pick_def join_as_def player_defs
      room_defs config_defs server_defs Let_def)

lemma reachable_both_ready: "reachable both_ready"
proof -
  let ?es = "two_pick @ [PlayerReady ''a'', PlayerReady ''b'']"
  have f: "feasible ?es (GameServer_new 0)"
    by (simp add: two_pick_def join_as_def player_defs room_defs config_defs server_defs Let_def)
  have "map_sum id fst (run ?es (GameServer_new 0)) = Inr both_ready"
    by (simp add: both_ready_def state_after_def two_pick_def join_as_def player_defs
        room_defs config_defs server_defs Let_def)
  then obtain out where "run ?es (GameServer_new 0) = Inr (both_ready, out)"
    by (cases "run ?es (GameServer_new 0)") auto
  from reachable_run [OF reachable.init f this] show ?thesis .
qed

section \<open>World change\<close>

lemma partition_after_flip:
  assumes "p_id (h ! a) = sid"
  shows "filter (\<lambda>b. p_id (h[a := (h ! a)\<lparr>worldState := t\<rparr>] ! b) \<noteq> sid)
           (getPlayersInWorldState room ws (h[a := (h ! a)\<lparr>worldState := t\<rparr>]))
         = others_in room ws sid h"
proof -
  let ?h1 = "h[a := (h ! a)\<lparr>worldState := t\<rparr>]"
  have same: "?h1 ! b = h ! b" if "p_id (h ! b) \<noteq> sid" for b
    using that assms by (cases "a < length h") (auto simp: nth_list_update list_update_beyond)
  have pid: "p_id (?h1 ! b) = p_id (h ! b)" for b
    by (cases "a < length h") (auto simp: nth_list_update list_update_beyond)
  show ?thesis
    unfolding getPlayersInWorldState_def others_in_def filter_filter
    by (rule filter_cong [OF refl]) (auto simp: pid same)
qed

lemma others_in_same:
  assumes "p_id (h ! a) = sid" "b \<in> set (others_in room ws sid h)"
  shows "h[a := p] ! b = h ! b"
  using assms by (cases "a < length h") (auto simp: others_in_def nth_list_update list_update_beyond)

text \<open>
  Claim C5 (world change).  For a registered session of a reachable state: a target that is
  neither \<^verbatim>\<open>normal\<close> nor \<^verbatim>\<open>upsideDown\<close>, or that is the current world state, leaves the
  state as it is and emits nothing.  Any other target sets the world state of the session's
  player to the target and changes nothing else; the handler emits, in this order,
  \<^verbatim>\<open>player:left\<close> to every other ready session of the room that is in the old world state,
  \<^verbatim>\<open>player:spawned\<close> with the caller's new public state to every other ready session that
  is in the new world state, and to the caller \<^verbatim>\<open>player:worldChanged\<close> with the roster of
  the new partition, which lists every other session there.
\<close>

theorem worldChange_semantics:
  assumes "reachable s" and "map_of (players s) sid = Some a"
  shows "(target \<noteq> ''normal'' \<and> target \<noteq> ''upsideDown'' \<or> target = worldState (heap s ! a) \<longrightarrow>
            handleWorldChange sid target s = Inr (s, [])) \<and>
         ((target = ''normal'' \<or> target = ''upsideDown'') \<and> target \<noteq> worldState (heap s ! a) \<longrightarrow>
            (\<exists>rid room. map_of (socketToRoom s) sid = Some rid \<and> map_of (rooms s) rid = Some room \<and>
               handleWorldChange sid target s =
                 Inr (s\<lparr>heap := (heap s)[a := (heap s ! a)\<lparr>worldState := target\<rparr>]\<rparr>,
                      map (\<lambda>b. (ToRoom (p_id (heap s ! b)), PlayerLeft sid))
                          (others_in room (worldState (heap s ! a)) sid (heap s))
                      @ map (\<lambda>b. (ToRoom (p_id (heap s ! b)),
                                    PlayerSpawned (serialize ((heap s ! a)\<lparr>worldState := target\<rparr>))))
                          (others_in room target sid (heap s))
                      @ [(ToSocket sid,
                          PlayerWorldChanged target
                            (map (\<lambda>b. serialize (heap s ! b))
                               (others_in room target sid (heap s))))])))"
proof -
  from reachable_wf [OF assms(1)] assms(2) have ok: "session_ok s sid a" by (simp add: wf_def)
  then obtain rid room where rid: "map_of (socketToRoom s) sid = Some rid"
    and room: "map_of (rooms s) rid = Some room"
    and a: "a < length (heap s)" and pid: "p_id (heap s ! a) = sid"
    by (auto simp: session_ok_def)
  from reachable_wf [OF assms(1)] room have ridne: "rid \<noteq> []" by (auto simp: wf_def)
  let ?h1 = "(heap s)[a := (heap s ! a)\<lparr>worldState := target\<rparr>]"
  have noop: "handleWorldChange sid target s = Inr (s, [])"
    if "target \<noteq> ''normal'' \<and> target \<noteq> ''upsideDown'' \<or> target = worldState (heap s ! a)"
    using that assms(2) rid by (auto simp: handleWorldChange_def Let_def)
  have flip: "handleWorldChange sid target s =
                 Inr (s\<lparr>heap := ?h1\<rparr>,
                      map (\<lambda>b. (ToRoom (p_id (heap s ! b)), PlayerLeft sid))
                          (others_in room (worldState (heap s ! a)) sid (heap s))
                      @ map (\<lambda>b. (ToRoom (p_id (heap s ! b)),
                                    PlayerSpawned (serialize ((heap s ! a)\<lparr>worldState := target\<rparr>))))
                          (others_in room target sid (heap s))
                      @ [(ToSocket sid,
                          PlayerWorldChanged target
                            (map (\<lambda>b. serialize (heap s ! b))
                               (others_in room target sid (heap s))))])"
    if t: "(target = ''normal'' \<or> target = ''upsideDown'') \<and> target \<noteq> worldState (heap s ! a)"
  proof -
    have m1: "map (\<lambda>b. (ToRoom (p_id (?h1 ! b)), PlayerLeft sid)) (others_in room ws sid (heap s))
            = map (\<lambda>b. (ToRoom (p_id (heap s ! b)), PlayerLeft sid)) (others_in room ws sid (heap s))"
      for ws by (rule map_cong [OF refl]) (simp add: others_in_same [OF pid])
    have m2: "map (\<lambda>b. (ToRoom (p_id (?h1 ! b)), e)) (others_in room ws sid (heap s))
            = map (\<lambda>b. (ToRoom (p_id (heap s ! b)), e)) (others_in room ws sid (heap s))"
      for ws e by (rule map_cong [OF refl]) (simp add: others_in_same [OF pid])
    have m3: "map (\<lambda>b. serialize (?h1 ! b)) (others_in room ws sid (heap s))
            = map (\<lambda>b. serialize (heap s ! b)) (others_in room ws sid (heap s))"
      for ws by (rule map_cong [OF refl]) (simp add: others_in_same [OF pid])
    have self: "?h1 ! a = (heap s ! a)\<lparr>worldState := target\<rparr>" using a by simp
    show ?thesis
      using t assms(2) rid room ridne
      by (auto simp: handleWorldChange_def Let_def partition_after_flip [OF pid] m2 m3 self)
  qed
  from noop flip rid room show ?thesis by blast
qed

theorem worldChange_semantics_witness:
  "reachable both_ready \<and> map_of (players both_ready) ''a'' = Some 0 \<and>
   handleWorldChange ''a'' ''normal'' both_ready = Inr (both_ready, []) \<and>
   handleWorldChange ''a'' ''hawkins'' both_ready = Inr (both_ready, []) \<and>
   map_sum id snd (handleWorldChange ''a'' ''upsideDown'' both_ready) =
     Inr [(ToRoom ''b'', PlayerLeft ''a''), (ToSocket ''a'', PlayerWorldChanged ''upsideDown'' [])]"
proof -
  have p: "map_of (players both_ready) ''a'' = Some 0" by (simp add: both_ready_eq)
  note w = worldChange_semantics [OF reachable_both_ready p]
  have 0: "worldState (heap both_ready ! 0) = ''normal''" by (simp add: both_ready_eq)
  from w [of "''normal''"] 0 have n: "handleWorldChange ''a'' ''normal'' both_ready = Inr (both_ready, [])"
    by simp
  from w [of "''hawkins''"] have h: "handleWorldChange ''a'' ''hawkins'' both_ready = Inr (both_ready, [])"
    by simp
  from w [of "''upsideDown''"] 0
  have u: "map_sum id snd (handleWorldChange ''a'' ''upsideDown'' both_ready) =
     Inr [(ToRoom ''b'', PlayerLeft ''a''), (ToSocket ''a'', PlayerWorldChanged ''upsideDown'' [])]"
    by (auto simp: both_ready_eq others_in_def)
  from reachable_both_ready p n h u show ?thesis by blast
qed

section \<open>Tick batching\<close>

lemma nth_upd: "xs[i := x] ! j = (if i = j \<and> i < length xs then x else xs ! j)"
  by (cases "i < length xs") (auto simp: nth_list_update list_update_beyond)

lemma spec_batch_cong:
  assumes "\<forall>b \<in> set ps. h1 ! b = h ! b"
  shows "spec_batch ps h1 = spec_batch ps h"
proof -
  have f: "filter (\<lambda>b. needsBroadcast (h1 ! b)) ps = filter (\<lambda>b. needsBroadcast (h ! b)) ps"
    by (rule filter_cong [OF refl]) (simp add: assms)
  show ?thesis
    unfolding spec_batch_def f by (rule map_cong [OF refl]) (simp add: assms)
qed

lemma collectUpdates_batch:
  assumes "distinct ps" "\<forall>b \<in> set ps. b < length h"
  shows "fst (collectUpdates ps h) = spec_batch ps h"
  using assms
proof (induction ps arbitrary: h)
  case Nil
  then show ?case by (simp add: spec_batch_def)
next
  case (Cons a ps)
  let ?h2 = "h[a := (h ! a)\<lparr>needsBroadcast := False\<rparr>]"
  have same: "?h2 ! b = h ! b" if "b \<in> set ps" for b
    using that Cons.prems by (auto simp: nth_list_update)
  have eq: "spec_batch ps ?h2 = spec_batch ps h"
    by (rule spec_batch_cong) (simp add: same)
  show ?case
  proof (cases "needsBroadcast (h ! a)")
    case True
    from Cons.prems have "distinct ps" "\<forall>b \<in> set ps. b < length ?h2" by simp_all
    from Cons.IH [OF this] True eq show ?thesis
      by (simp add: split_beta spec_batch_def)
  next
    case False
    from Cons.prems have "distinct ps" "\<forall>b \<in> set ps. b < length h" by simp_all
    from Cons.IH [OF this] False show ?thesis by (simp add: spec_batch_def)
  qed
qed

lemma collectUpdates_nth:
  "length (snd (collectUpdates ps h)) = length h \<and>
   (\<forall>b < length h. snd (collectUpdates ps h) ! b =
        (if b \<in> set ps then (h ! b)\<lparr>needsBroadcast := False\<rparr> else h ! b))"
proof (induction ps arbitrary: h)
  case Nil
  then show ?case by simp
next
  case (Cons a ps)
  let ?h2 = "h[a := (h ! a)\<lparr>needsBroadcast := False\<rparr>]"
  show ?case
  proof (cases "needsBroadcast (h ! a)")
    case True
    with Cons.IH [of ?h2] show ?thesis
      by (auto simp: split_beta nth_upd)
  next
    case False
    then have "(h ! a)\<lparr>needsBroadcast := False\<rparr> = h ! a" by simp
    with False Cons.IH [of h] show ?thesis by auto
  qed
qed

lemma collectUpdates_clear: "snd (collectUpdates ps h) = spec_clear ps h"
  using collectUpdates_nth [of ps h]
  by (intro nth_equalityI) (simp_all add: spec_clear_def)

lemma spec_clear_nth:
  "b < length h \<Longrightarrow>
   spec_clear ps h ! b = (if b \<in> set ps then (h ! b)\<lparr>needsBroadcast := False\<rparr> else h ! b)"
  by (simp add: spec_clear_def)

lemma length_spec_clear: "length (spec_clear ps h) = length h"
  by (simp add: spec_clear_def)

lemma spec_fanout_cong:
  assumes "\<forall>b \<in> set ps. p_id (h1 ! b) = p_id (h ! b)" "spec_batch ps h1 = spec_batch ps h"
  shows "spec_fanout ps h1 = spec_fanout ps h"
  unfolding spec_fanout_def assms(2)
  by (rule arg_cong [where f = concat], rule map_cong [OF refl]) (simp add: assms(1) Let_def)

lemma broadcastUpdates_spec:
  assumes "distinct ps" "\<forall>b \<in> set ps. b < length h"
  shows "broadcastUpdates ps rid h = (spec_clear ps h, spec_fanout ps h)"
proof -
  have pid: "\<forall>b \<in> set ps. p_id (spec_clear ps h ! b) = p_id (h ! b)"
    using assms(2) by (simp add: spec_clear_nth)
  have send: "sendUpdates (spec_batch ps h) ps (spec_clear ps h) = spec_fanout ps h"
    unfolding sendUpdates_def spec_fanout_def
    by (rule arg_cong [where f = concat], rule map_cong [OF refl]) (simp add: pid Let_def)
  have empty: "spec_fanout ps h = []" if "spec_batch ps h = []"
    using that by (simp add: spec_fanout_def)
  obtain us h' where c: "collectUpdates ps h = (us, h')" by (cases "collectUpdates ps h")
  with collectUpdates_batch [OF assms] collectUpdates_clear [of ps h]
  have us: "us = spec_batch ps h" and h': "h' = spec_clear ps h" by simp_all
  show ?thesis
    unfolding broadcastUpdates_def c us h' using send empty by simp
qed


lemma distinct_addresses:
  assumes "room_ok h room"
  shows "distinct (map snd (r_players room))"
proof -
  from assms have d: "distinct (map fst (r_players room))"
    and k: "\<forall>k b. (k, b) \<in> set (r_players room) \<longrightarrow> p_id (h ! b) = k"
    by (simp_all add: room_ok_def)
  have "inj_on snd (set (r_players room))"
  proof (rule inj_onI)
    fix x y assume x: "x \<in> set (r_players room)" and y: "y \<in> set (r_players room)"
      and e: "snd x = snd y"
    from k x y e have "fst x = fst y" by (metis prod.collapse)
    with e show "x = y" by (simp add: prod_eq_iff)
  qed
  moreover from d have "distinct (r_players room)" by (rule distinct_map [THEN iffD1, THEN conjunct1])
  ultimately show ?thesis by (simp add: distinct_map)
qed

lemma partition_ok:
  assumes "room_ok h room"
  shows "distinct (getPlayersInWorldState room ws h)"
    and "\<forall>b \<in> set (getPlayersInWorldState room ws h). b < length h"
  using distinct_addresses [OF assms] assms
  by (auto simp: getPlayersInWorldState_def room_ok_def)

lemma spec_clear_append: "spec_clear qs (spec_clear ps h) = spec_clear (ps @ qs) h"
  by (intro nth_equalityI) (auto simp: spec_clear_def)

lemma tickRoom_spec:
  assumes "room_ok h room"
  shows "tickRoom rid room h =
           (spec_clear (getPlayersInWorldState room ''normal'' h
                        @ getPlayersInWorldState room ''upsideDown'' h) h,
            spec_fanout (getPlayersInWorldState room ''normal'' h) h
            @ spec_fanout (getPlayersInWorldState room ''upsideDown'' h) h)"
proof -
  let ?N = "getPlayersInWorldState room ''normal'' h"
  let ?U = "getPlayersInWorldState room ''upsideDown'' h"
  let ?h1 = "spec_clear ?N h"
  note n = broadcastUpdates_spec [OF partition_ok [OF assms, of "''normal''"], of rid]
  have "\<forall>b \<in> set ?U. b < length ?h1"
    using partition_ok(2) [OF assms, of "''upsideDown''"] by (simp add: length_spec_clear)
  note u = broadcastUpdates_spec [OF partition_ok(1) [OF assms, of "''upsideDown''"] this, of rid]
  have same: "\<forall>b \<in> set ?U. ?h1 ! b = h ! b"
  proof
    fix b assume b: "b \<in> set ?U"
    then have "b \<notin> set ?N" by (auto simp: getPlayersInWorldState_def)
    moreover from b partition_ok(2) [OF assms, of "''upsideDown''"] have "b < length h" by blast
    ultimately show "?h1 ! b = h ! b" by (simp add: spec_clear_nth)
  qed
  have f: "spec_fanout ?U ?h1 = spec_fanout ?U h"
    by (rule spec_fanout_cong) (simp_all add: same spec_batch_cong)
  show ?thesis
    by (simp add: tickRoom_def Let_def n u f spec_clear_append)
qed

lemma gameLoopTick_spec:
  assumes "wf s" "one_room s" "map_of (rooms s) rid = Some room"
  shows "gameLoopTick s =
           (s\<lparr>heap := spec_clear (getPlayersInWorldState room ''normal'' (heap s)
                                   @ getPlayersInWorldState room ''upsideDown'' (heap s)) (heap s)\<rparr>,
            spec_fanout (getPlayersInWorldState room ''normal'' (heap s)) (heap s)
            @ spec_fanout (getPlayersInWorldState room ''upsideDown'' (heap s)) (heap s))"
proof -
  from assms(2,3) have r: "rooms s = [(rid, room)]"
    by (auto simp: one_room_def split: if_splits)
  from assms(1,3) have ok: "room_ok (heap s) room"
    by (auto simp: wf_def)
  show ?thesis
    unfolding gameLoopTick_def r by (simp add: tickRoom_spec [OF ok])
qed

lemma move_effect:
  assumes "map_of (players s) sid = Some a"
  shows "handlePlayerMove sid d now s = s \<or>
         (\<exists>p'. handlePlayerMove sid d now s = s\<lparr>heap := (heap s)[a := p']\<rparr> \<and>
               needsBroadcast p' \<and> p_id p' = p_id (heap s ! a) \<and>
               characterId p' = characterId (heap s ! a) \<and>
               worldState p' = worldState (heap s ! a) \<and>
               (in_bounds (position (heap s ! a)) \<longrightarrow> in_bounds (position p')))"
  using assms in_bounds_clampPosition unfolding handlePlayerMove_def
  by (auto simp: Let_def setPosition_def setRotation_def in_bounds_def
      split: option.splits if_splits)

lemma moves_effect:
  assumes "map_of (players s) sid = Some a" "a < length (heap s)"
  shows "\<exists>h'. moves sid ds s = s\<lparr>heap := h'\<rparr> \<and> heap_step (heap s) h' \<and>
              worldState (h' ! a) = worldState (heap s ! a) \<and>
              (needsBroadcast (heap s ! a) \<longrightarrow> needsBroadcast (h' ! a)) \<and>
              (moves sid ds s = s \<or> needsBroadcast (h' ! a))"
  using assms
proof (induction ds arbitrary: s)
  case Nil
  show ?case by (intro exI [of _ "heap s"]) (simp add: heap_step_refl)
next
  case (Cons x ds)
  obtain d now where x: "x = (d, now)" by (cases x)
  let ?s1 = "handlePlayerMove sid d now s"
  from move_effect [OF Cons.prems(1), of d now]
  have "\<exists>h1. ?s1 = s\<lparr>heap := h1\<rparr> \<and> heap_step (heap s) h1 \<and>
              worldState (h1 ! a) = worldState (heap s ! a) \<and>
              (needsBroadcast (heap s ! a) \<longrightarrow> needsBroadcast (h1 ! a)) \<and>
              (?s1 = s \<or> needsBroadcast (h1 ! a))"
  proof
    assume "?s1 = s"
    then show ?thesis by (intro exI [of _ "heap s"]) (simp add: heap_step_refl)
  next
    assume "\<exists>p'. ?s1 = s\<lparr>heap := (heap s)[a := p']\<rparr> \<and>
               needsBroadcast p' \<and> p_id p' = p_id (heap s ! a) \<and>
               characterId p' = characterId (heap s ! a) \<and>
               worldState p' = worldState (heap s ! a) \<and>
               (in_bounds (position (heap s ! a)) \<longrightarrow> in_bounds (position p'))"
    then obtain p' where p': "?s1 = s\<lparr>heap := (heap s)[a := p']\<rparr>"
      "needsBroadcast p'" "p_id p' = p_id (heap s ! a)"
      "characterId p' = characterId (heap s ! a)" "worldState p' = worldState (heap s ! a)"
      "in_bounds (position (heap s ! a)) \<longrightarrow> in_bounds (position p')" by blast
    have "heap_step (heap s) ((heap s)[a := p'])"
      by (rule heap_step_update) (simp_all add: p')
    with p' Cons.prems(2) show ?thesis
      by (intro exI [of _ "(heap s)[a := p']"]) simp
  qed
  then obtain h1 where h1: "?s1 = s\<lparr>heap := h1\<rparr>" "heap_step (heap s) h1"
    "worldState (h1 ! a) = worldState (heap s ! a)"
    "needsBroadcast (heap s ! a) \<longrightarrow> needsBroadcast (h1 ! a)"
    "?s1 = s \<or> needsBroadcast (h1 ! a)" by blast
  have p1: "map_of (players ?s1) sid = Some a" using Cons.prems(1) by (simp add: h1(1))
  have a1: "a < length (heap ?s1)" using Cons.prems(2) h1(2) by (simp add: h1(1) heap_step_def)
  from Cons.IH [OF p1 a1] obtain h' where h': "moves sid ds ?s1 = ?s1\<lparr>heap := h'\<rparr>"
    "heap_step (heap ?s1) h'" "worldState (h' ! a) = worldState (heap ?s1 ! a)"
    "needsBroadcast (heap ?s1 ! a) \<longrightarrow> needsBroadcast (h' ! a)"
    "moves sid ds ?s1 = ?s1 \<or> needsBroadcast (h' ! a)" by blast
  have hp: "heap ?s1 = h1" by (simp add: h1(1))
  have m: "moves sid (x # ds) s = s\<lparr>heap := h'\<rparr>"
    by (simp add: x h'(1)) (simp add: h1(1))
  have st: "heap_step (heap s) h'" using heap_step_trans [OF h1(2)] h'(2) hp by simp
  have w: "worldState (h' ! a) = worldState (heap s ! a)" using h'(3) h1(3) hp by simp
  have k: "needsBroadcast (heap s ! a) \<longrightarrow> needsBroadcast (h' ! a)" using h'(4) h1(4) hp by simp
  have c: "moves sid (x # ds) s = s \<or> needsBroadcast (h' ! a)"
  proof (cases "?s1 = s")
    case True
    with h'(5) show ?thesis by (simp add: x)
  next
    case False
    with h1(5) h'(4) hp show ?thesis by simp
  qed
  from m st w k c show ?case by blast
qed

lemma filter_single:
  assumes "distinct xs" "a \<in> set xs"
  shows "filter (\<lambda>b. b = a \<and> Q b) xs = (if Q a then [a] else [])"
  using assms
proof (induction xs)
  case Nil
  then show ?case by simp
next
  case (Cons x xs)
  show ?case
  proof (cases "x = a")
    case True
    with Cons.prems have "a \<notin> set xs" by simp
    then have "filter (\<lambda>b. b = a \<and> Q b) xs = []" by (auto simp: filter_empty_conv)
    with True show ?thesis by simp
  next
    case False
    with Cons show ?thesis by simp
  qed
qed

lemma own_entry:
  assumes "room_ok h room" "(sid, a) \<in> set (r_players room)"
  shows "filter (\<lambda>u. u_id u = sid) (spec_batch (getPlayersInWorldState room ws h) h) =
           (if needsBroadcast (h ! a) \<and> worldState (h ! a) = ws then [mkUpdate (h ! a)] else [])"
proof -
  let ?rp = "map snd (r_players room)"
  from assms have dk: "distinct (map fst (r_players room))"
    and k: "\<forall>k b. (k, b) \<in> set (r_players room) \<longrightarrow> p_id (h ! b) = k"
    by (simp_all add: room_ok_def)
  have mine: "p_id (h ! b) = sid \<longleftrightarrow> b = a" if "b \<in> set ?rp" for b
  proof
    assume "p_id (h ! b) = sid"
    moreover from that obtain kb where "(kb, b) \<in> set (r_players room)" by auto
    ultimately have "(sid, b) \<in> set (r_players room)" using k by auto
    with assms(2) dk show "b = a" by (meson eq_key_imp_eq_value)
  next
    assume "b = a" with k assms(2) show "p_id (h ! b) = sid" by auto
  qed
  have a: "a \<in> set ?rp" using assms(2) by force
  have "filter (\<lambda>u. u_id u = sid) (spec_batch (getPlayersInWorldState room ws h) h)
        = map (\<lambda>b. mkUpdate (h ! b))
            (filter (\<lambda>b. p_id (h ! b) = sid)
               (filter (\<lambda>b. needsBroadcast (h ! b)) (filter (\<lambda>b. worldState (h ! b) = ws) ?rp)))"
    by (simp add: spec_batch_def getPlayersInWorldState_def filter_map comp_def mkUpdate_def)
  also have "filter (\<lambda>b. p_id (h ! b) = sid)
               (filter (\<lambda>b. needsBroadcast (h ! b)) (filter (\<lambda>b. worldState (h ! b) = ws) ?rp))
             = filter (\<lambda>b. b = a \<and> (needsBroadcast (h ! b) \<and> worldState (h ! b) = ws)) ?rp"
    unfolding filter_filter by (rule filter_cong [OF refl]) (auto simp: mine)
  also have "\<dots> = (if needsBroadcast (h ! a) \<and> worldState (h ! a) = ws then [a] else [])"
    by (rule filter_single [OF distinct_addresses [OF assms(1)] a])
  finally show ?thesis by simp
qed

text \<open>
  Claim C6, as the code has it.  In a reachable state, one tick of the game loop clears the
  dirty flags of the sessions of both partitions and of nobody else, and emits, for the
  normal partition and then for the upside-down partition, what the specification function
  \<open>spec_fanout\<close> says for that partition alone: the batch has one entry for each session
  of the partition whose flag is set, made from its stored state, and each session of the
  partition is sent the batch without its own entry when the batch so filtered is not
  empty.  A partition with an empty batch emits nothing.  When a ready session whose flag
  is clear sends move messages of which at least one is accepted, the batch of its partition
  at the next tick has exactly one entry for it, made from its final state, and the batch
  of the other partition has none.
\<close>

theorem tick_batching:
  assumes "reachable s" and "map_of (rooms s) rid = Some room"
  shows "gameLoopTick s =
           (s\<lparr>heap := spec_clear (getPlayersInWorldState room ''normal'' (heap s)
                                   @ getPlayersInWorldState room ''upsideDown'' (heap s)) (heap s)\<rparr>,
            spec_fanout (getPlayersInWorldState room ''normal'' (heap s)) (heap s)
            @ spec_fanout (getPlayersInWorldState room ''upsideDown'' (heap s)) (heap s)) \<and>
         (\<forall>ps h. spec_batch ps h = [] \<longrightarrow> spec_fanout ps h = []) \<and>
         (\<forall>sid a ds.
            map_of (players s) sid = Some a \<and> (sid, a) \<in> set (r_players room) \<and>
            \<not> needsBroadcast (heap s ! a) \<and> moves sid ds s \<noteq> s \<longrightarrow>
            (\<exists>h'. moves sid ds s = s\<lparr>heap := h'\<rparr> \<and>
                  valid_world (worldState (h' ! a)) \<and>
                  (\<forall>ws. filter (\<lambda>u. u_id u = sid) (spec_batch (getPlayersInWorldState room ws h') h')
                        = (if ws = worldState (h' ! a) then [mkUpdate (h' ! a)] else [])) \<and>
                  snd (gameLoopTick (moves sid ds s)) =
                    spec_fanout (getPlayersInWorldState room ''normal'' h') h'
                    @ spec_fanout (getPlayersInWorldState room ''upsideDown'' h') h'))"
proof (intro conjI allI impI)
  note wf = reachable_wf [OF assms(1)] and one = reachable_one_room [OF assms(1)]
  show "gameLoopTick s =
           (s\<lparr>heap := spec_clear (getPlayersInWorldState room ''normal'' (heap s)
                                   @ getPlayersInWorldState room ''upsideDown'' (heap s)) (heap s)\<rparr>,
            spec_fanout (getPlayersInWorldState room ''normal'' (heap s)) (heap s)
            @ spec_fanout (getPlayersInWorldState room ''upsideDown'' (heap s)) (heap s))"
    by (rule gameLoopTick_spec [OF wf one assms(2)])
  show "spec_fanout ps h = []" if "spec_batch ps h = []" for ps h
    using that by (simp add: spec_fanout_def)
next
  fix sid a ds
  assume h: "map_of (players s) sid = Some a \<and> (sid, a) \<in> set (r_players room) \<and>
            \<not> needsBroadcast (heap s ! a) \<and> moves sid ds s \<noteq> s"
  note wf = reachable_wf [OF assms(1)] and one = reachable_one_room [OF assms(1)]
  from wf h have a: "a < length (heap s)" by (auto simp: wf_def session_ok_def)
  from moves_effect [OF _ a, of sid ds] h obtain h' where
    m: "moves sid ds s = s\<lparr>heap := h'\<rparr>" and st: "heap_step (heap s) h'"
    and w: "worldState (h' ! a) = worldState (heap s ! a)" and flag: "needsBroadcast (h' ! a)"
    by auto
  have wf': "wf (s\<lparr>heap := h'\<rparr>)" by (rule wf_heap_step [OF wf st])
  have one': "one_room (s\<lparr>heap := h'\<rparr>)" using one by (simp add: one_room_def)
  have room': "map_of (rooms (s\<lparr>heap := h'\<rparr>)) rid = Some room" using assms(2) by simp
  from wf' room' have ok': "room_ok h' room" by (auto simp: wf_def)
  from reachable_worlds_ok [OF assms(1)] a have "valid_world (worldState (heap s ! a))"
    by (simp add: worlds_ok_def)
  with w have v: "valid_world (worldState (h' ! a))" by simp
  have e: "\<forall>ws. filter (\<lambda>u. u_id u = sid) (spec_batch (getPlayersInWorldState room ws h') h')
                        = (if ws = worldState (h' ! a) then [mkUpdate (h' ! a)] else [])"
    using own_entry [OF ok', of sid a] h flag by auto
  have t: "snd (gameLoopTick (moves sid ds s)) =
                    spec_fanout (getPlayersInWorldState room ''normal'' h') h'
                    @ spec_fanout (getPlayersInWorldState room ''upsideDown'' h') h'"
    unfolding m gameLoopTick_spec [OF wf' one' room'] by simp
  from m v e t show "\<exists>h'. moves sid ds s = s\<lparr>heap := h'\<rparr> \<and>
                  valid_world (worldState (h' ! a)) \<and>
                  (\<forall>ws. filter (\<lambda>u. u_id u = sid) (spec_batch (getPlayersInWorldState room ws h') h')
                        = (if ws = worldState (h' ! a) then [mkUpdate (h' ! a)] else [])) \<and>
                  snd (gameLoopTick (moves sid ds s)) =
                    spec_fanout (getPlayersInWorldState room ''normal'' h') h'
                    @ spec_fanout (getPlayersInWorldState room ''upsideDown'' h') h'"
    by blast
qed

lemma three_moves_eq:
  "moves ''a'' three_moves both_ready = both_ready\<lparr>heap := (heap both_ready)
      [0 := \<lparr>p_id = ''a'', username = ''Ann'', position = \<lparr>vx = 10, vy = 0, vz = 10\<rparr>,
             rotation = 1, worldState = ''normal'', animation = ''idle'',
             characterId = Some ''eleven'', firebaseUid = None, joinedAt = 1, lastUpdate = 7,
             needsBroadcast = True\<rparr>]\<rparr>"
  by (simp add: three_moves_def both_ready_eq far_away_def jitter_def back_home_def
      player_defs config_defs handlePlayerMove_def clampPosition_def Let_def)

theorem tick_batching_witness:
  "reachable both_ready \<and> snd (gameLoopTick both_ready) = [] \<and>
   filter (\<lambda>u. u_id u = ''a'')
      (spec_batch (getPlayersInWorldState (room_of both_ready ''hawkins-1'') ''normal''
                     (heap (moves ''a'' three_moves both_ready)))
         (heap (moves ''a'' three_moves both_ready))) =
     [\<lparr>u_id = ''a'', u_position = \<lparr>vx = 10, vy = 0, vz = 10\<rparr>, u_rotation = 1,
       u_animation = ''idle''\<rparr>] \<and>
   snd (gameLoopTick (moves ''a'' three_moves both_ready)) =
     [(ToRoom ''b'',
       PlayersUpdate [\<lparr>u_id = ''a'', u_position = \<lparr>vx = 10, vy = 0, vz = 10\<rparr>,
                       u_rotation = 1, u_animation = ''idle''\<rparr>])]"
proof -
  let ?R = "room_of both_ready ''hawkins-1''"
  let ?s' = "moves ''a'' three_moves both_ready"
  have room: "map_of (rooms both_ready) ''hawkins-1'' = Some ?R"
    by (simp add: both_ready_eq room_of_def)
  note t = tick_batching [OF reachable_both_ready room]
  from t have tick0: "snd (gameLoopTick both_ready) =
      spec_fanout (getPlayersInWorldState ?R ''normal'' (heap both_ready)) (heap both_ready)
      @ spec_fanout (getPlayersInWorldState ?R ''upsideDown'' (heap both_ready)) (heap both_ready)"
    by simp
  have quiet: "snd (gameLoopTick both_ready) = []"
    unfolding tick0
    by (simp add: both_ready_eq room_of_def spec_fanout_def spec_batch_def
        getPlayersInWorldState_def)
  have pre: "map_of (players both_ready) ''a'' = Some 0 \<and> (''a'', 0) \<in> set (r_players ?R) \<and>
            \<not> needsBroadcast (heap both_ready ! 0) \<and> ?s' \<noteq> both_ready"
    by (simp add: three_moves_eq) (simp add: both_ready_eq room_of_def)
  from t pre obtain h' where h': "?s' = both_ready\<lparr>heap := h'\<rparr>"
    and e: "\<forall>ws. filter (\<lambda>u. u_id u = ''a'') (spec_batch (getPlayersInWorldState ?R ws h') h')
                        = (if ws = worldState (h' ! 0) then [mkUpdate (h' ! 0)] else [])"
    and n: "snd (gameLoopTick ?s') =
                    spec_fanout (getPlayersInWorldState ?R ''normal'' h') h'
                    @ spec_fanout (getPlayersInWorldState ?R ''upsideDown'' h') h'"
    by blast
  from h' have hh: "h' = heap ?s'" by simp
  have entry: "filter (\<lambda>u. u_id u = ''a'')
      (spec_batch (getPlayersInWorldState ?R ''normal'' (heap ?s')) (heap ?s')) =
     [\<lparr>u_id = ''a'', u_position = \<lparr>vx = 10, vy = 0, vz = 10\<rparr>, u_rotation = 1,
       u_animation = ''idle''\<rparr>]"
    using e [rule_format, of "''normal''"] unfolding hh
    by (simp add: three_moves_eq) (simp add: both_ready_eq mkUpdate_def)
  have next_tick: "snd (gameLoopTick ?s') =
     [(ToRoom ''b'',
       PlayersUpdate [\<lparr>u_id = ''a'', u_position = \<lparr>vx = 10, vy = 0, vz = 10\<rparr>,
                       u_rotation = 1, u_animation = ''idle''\<rparr>])]"
    unfolding n hh
    by (simp add: three_moves_eq)
       (simp add: both_ready_eq room_of_def spec_fanout_def spec_batch_def
          getPlayersInWorldState_def mkUpdate_def Let_def)
  from reachable_both_ready quiet entry next_tick show ?thesis by blast
qed

text \<open>
  The claim as the specification words it sends the batch to each session of the partition
  whenever the batch is not empty.  With two ready sessions in the normal world of which
  \<open>a\<close> has moved, the batch holds the entry of \<open>a\<close>; \<open>b\<close> is sent it, and \<open>a\<close>, whose
  filtered batch is empty, is sent nothing: the second loop of \<^verbatim>\<open>broadcastUpdates\<close>
  guards the emit with \<^verbatim>\<open>relevantUpdates.length > 0\<close>.
\<close>

lemma a_moved_eq:
  "a_moved = both_ready\<lparr>heap := (heap both_ready)
      [0 := \<lparr>p_id = ''a'', username = ''Ann'', position = \<lparr>vx = 500, vy = 3, vz = - 500\<rparr>,
             rotation = 0, worldState = ''normal'', animation = ''run'',
             characterId = Some ''eleven'', firebaseUid = None, joinedAt = 1, lastUpdate = 5,
             needsBroadcast = True\<rparr>]\<rparr>"
  by (simp add: a_moved_def a_moves_def both_ready_eq state_after_def two_pick_def join_as_def
      far_away_def player_defs room_defs config_defs server_defs Let_def)

theorem own_echo_counterexample:
  "feasible (a_moves @ [Tick]) (GameServer_new 0) \<and>
   getPlayersInWorldState (room_of a_moved ''hawkins-1'') ''normal'' (heap a_moved) = [0, 1] \<and>
   p_id (heap a_moved ! 0) = ''a'' \<and>
   fst (collectUpdates [0, 1] (heap a_moved)) =
     [\<lparr>u_id = ''a'', u_position = \<lparr>vx = 500, vy = 3, vz = - 500\<rparr>, u_rotation = 0,
       u_animation = ''run''\<rparr>] \<and>
   snd (gameLoopTick a_moved) =
     [(ToRoom ''b'',
       PlayersUpdate [\<lparr>u_id = ''a'', u_position = \<lparr>vx = 500, vy = 3, vz = - 500\<rparr>,
                       u_rotation = 0, u_animation = ''run''\<rparr>])] \<and>
   deliveredTo (io_rooms a_moved) (snd (gameLoopTick a_moved)) ''a'' = []"
proof -
  have f: "feasible (a_moves @ [Tick]) (GameServer_new 0)"
    by (simp add: a_moves_def two_pick_def join_as_def far_away_def player_defs room_defs
        config_defs server_defs Let_def)
  have rest: "getPlayersInWorldState (room_of a_moved ''hawkins-1'') ''normal'' (heap a_moved) = [0, 1] \<and>
   p_id (heap a_moved ! 0) = ''a'' \<and>
   fst (collectUpdates [0, 1] (heap a_moved)) =
     [\<lparr>u_id = ''a'', u_position = \<lparr>vx = 500, vy = 3, vz = - 500\<rparr>, u_rotation = 0,
       u_animation = ''run''\<rparr>] \<and>
   snd (gameLoopTick a_moved) =
     [(ToRoom ''b'',
       PlayersUpdate [\<lparr>u_id = ''a'', u_position = \<lparr>vx = 500, vy = 3, vz = - 500\<rparr>,
                       u_rotation = 0, u_animation = ''run''\<rparr>])] \<and>
   deliveredTo (io_rooms a_moved) (snd (gameLoopTick a_moved)) ''a'' = []"
    by (simp add: a_moved_eq both_ready_eq room_of_def player_defs room_defs server_defs Let_def)
  from f rest show ?thesis by blast
qed

end
